theory Spec2Isabelle
  imports Main
begin

section \<open>Perp Scan v1.2: the routing, fetching and formatting core of the dashboard\<close>

text \<open>
  The development follows \<^verbatim>\<open>FEperp_scan_v_1.jsx\<close>. A JavaScript string is modelled
  by the \<^typ>\<open>string\<close> of its UTF-8 bytes, so every \<^typ>\<open>char\<close> below \<open>0x80\<close> is an ASCII
  character and a character beyond ASCII is a sequence of bytes from \<open>0x80\<close> upwards.
  The string operations of the source (\<^verbatim>\<open>split\<close>, \<^verbatim>\<open>replace\<close>, \<^verbatim>\<open>encodeURIComponent\<close>,
  \<^verbatim>\<open>URLSearchParams\<close>) only ever cut at ASCII characters, which never occur inside
  such a sequence. The strings so represented are those without a lone surrogate, the
  only ones \<^verbatim>\<open>encodeURIComponent\<close> accepts; their representations are the \<open>well_formed\<close>
  byte sequences below.
\<close>

subsection \<open>Constants\<close>

definition DEFAULT_BASE :: string where
  "DEFAULT_BASE = ''https://perp-scan-live.liam-alerts.workers.dev''"

definition BUILT_IN_PERIODS :: "string list" where
  "BUILT_IN_PERIODS =
     [''day'', ''week'', ''month'', ''allTime'', ''perpDay'', ''perpWeek'', ''perpMonth'', ''perpAllTime'']"

subsection \<open>JavaScript values\<close>

text \<open>
  A number is \<open>NaN\<close>, an infinity or a finite value. The finite values and the
  primitives on them that the source calls (\<^verbatim>\<open>*\<close>, \<^verbatim>\<open>Math.abs\<close>, \<^verbatim>\<open>toFixed\<close>,
  \<^verbatim>\<open>toLocaleString\<close>, the conversions from and to strings) belong to the runtime: the
  functions below take them as a record \<open>ops\<close>, and what is proved holds for every
  implementation of them, IEEE binary64 included.
\<close>

datatype 'n number = NaN | PosInfinity | NegInfinity | Finite 'n

datatype 'n jsval =
    Undefined
  | Null
  | Bool bool
  | Num "'n number"
  | Str string
  | Arr "'n jsval list"
  | Obj "(string \<times> 'n jsval) list"

datatype js_error = Error string | TypeError string | SyntaxError string | AbortError string

record 'n numops =
  zero :: 'n
  one :: 'n
  is_zero :: "'n \<Rightarrow> bool"
  abs_le_one :: "'n \<Rightarrow> bool"
  times100 :: "'n \<Rightarrow> 'n number"
  toFixed :: "'n \<Rightarrow> nat \<Rightarrow> string"
  toLocaleString :: "'n \<Rightarrow> nat \<Rightarrow> string"
  numberToString :: "'n \<Rightarrow> string"
  stringToNumber :: "string \<Rightarrow> 'n number"

text \<open>\<^verbatim>\<open>e.message\<close>, \<^verbatim>\<open>e.name\<close> and \<^verbatim>\<open>String(e)\<close> of a thrown error.\<close>

fun message :: "js_error \<Rightarrow> string" where
  "message (Error m) = m"
| "message (TypeError m) = m"
| "message (SyntaxError m) = m"
| "message (AbortError m) = m"

fun error_name :: "js_error \<Rightarrow> string" where
  "error_name (Error m) = ''Error''"
| "error_name (TypeError m) = ''TypeError''"
| "error_name (SyntaxError m) = ''SyntaxError''"
| "error_name (AbortError m) = ''AbortError''"

definition error_String :: "js_error \<Rightarrow> string" where
  "error_String e = (if message e = [] then error_name e else error_name e @ '': '' @ message e)"

fun join :: "string \<Rightarrow> string list \<Rightarrow> string" where
  "join sep [] = []"
| "join sep [x] = x"
| "join sep (x # y # ys) = x @ sep @ join sep (y # ys)"

fun sequence :: "('e + 'a) list \<Rightarrow> 'e + 'a list" where
  "sequence [] = Inr []"
| "sequence (x # xs) =
     (case x of
        Inl e \<Rightarrow> Inl e
      | Inr v \<Rightarrow> (case sequence xs of Inl e \<Rightarrow> Inl e | Inr vs \<Rightarrow> Inr (v # vs)))"

text \<open>
  \<^verbatim>\<open>ToString\<close>. An array is joined with commas, \<^verbatim>\<open>null\<close> and \<^verbatim>\<open>undefined\<close> elements
  giving the empty string. The objects here come out of \<^verbatim>\<open>JSON.parse\<close>, so no property
  of theirs is callable: an object is \<^verbatim>\<open>[object Object]\<close>, unless it has a property
  \<^verbatim>\<open>toString\<close> of its own, which hides the inherited method and makes the conversion
  throw.
\<close>

fun ToString :: "'n numops \<Rightarrow> 'n jsval \<Rightarrow> js_error + string" where
  "ToString ops Undefined = Inr ''undefined''"
| "ToString ops Null = Inr ''null''"
| "ToString ops (Bool b) = Inr (if b then ''true'' else ''false'')"
| "ToString ops (Num NaN) = Inr ''NaN''"
| "ToString ops (Num PosInfinity) = Inr ''Infinity''"
| "ToString ops (Num NegInfinity) = Inr ''-Infinity''"
| "ToString ops (Num (Finite x)) = Inr (numberToString ops x)"
| "ToString ops (Str s) = Inr s"
| "ToString ops (Arr xs) =
     (case sequence (map (\<lambda>x. if x = Undefined \<or> x = Null then Inr [] else ToString ops x) xs) of
        Inl e \<Rightarrow> Inl e
      | Inr ss \<Rightarrow> Inr (join '','' ss))"
| "ToString ops (Obj kvs) =
     (if ''toString'' \<in> fst ` set kvs
      then Inl (TypeError ''Cannot convert object to primitive value'')
      else Inr ''[object Object]'')"

text \<open>\<^verbatim>\<open>ToNumber\<close>, the unary \<^verbatim>\<open>+v\<close> and \<^verbatim>\<open>Number(v)\<close>.\<close>

fun ToNumber :: "'n numops \<Rightarrow> 'n jsval \<Rightarrow> js_error + 'n number" where
  "ToNumber ops Undefined = Inr NaN"
| "ToNumber ops Null = Inr (Finite (zero ops))"
| "ToNumber ops (Bool b) = Inr (Finite (if b then one ops else zero ops))"
| "ToNumber ops (Num n) = Inr n"
| "ToNumber ops (Str s) = Inr (stringToNumber ops s)"
| "ToNumber ops v =
     (case ToString ops v of Inl e \<Rightarrow> Inl e | Inr s \<Rightarrow> Inr (stringToNumber ops s))"

text \<open>\<^verbatim>\<open>ToBoolean\<close>: what \<^verbatim>\<open>!\<close>, \<^verbatim>\<open>||\<close> and \<^verbatim>\<open>&&\<close> test.\<close>

fun truthy :: "'n numops \<Rightarrow> 'n jsval \<Rightarrow> bool" where
  "truthy ops Undefined = False"
| "truthy ops Null = False"
| "truthy ops (Bool b) = b"
| "truthy ops (Num NaN) = False"
| "truthy ops (Num (Finite x)) = (\<not> is_zero ops x)"
| "truthy ops (Num n) = True"
| "truthy ops (Str s) = (s \<noteq> [])"
| "truthy ops v = True"

text \<open>\<^verbatim>\<open>v == null\<close> holds of \<^verbatim>\<open>null\<close> and \<^verbatim>\<open>undefined\<close> only.\<close>

fun eq_null :: "'n jsval \<Rightarrow> bool" where
  "eq_null Undefined = True"
| "eq_null Null = True"
| "eq_null v = False"

fun isFinite :: "'n number \<Rightarrow> bool" where
  "isFinite (Finite x) = True"
| "isFinite n = False"

text \<open>\<^verbatim>\<open>Number.prototype.toFixed\<close> on any number.\<close>

fun number_toFixed :: "'n numops \<Rightarrow> 'n number \<Rightarrow> nat \<Rightarrow> string" where
  "number_toFixed ops NaN d = ''NaN''"
| "number_toFixed ops PosInfinity d = ''Infinity''"
| "number_toFixed ops NegInfinity d = ''-Infinity''"
| "number_toFixed ops (Finite x) d = toFixed ops x d"

subsection \<open>Formatting utilities\<close>

text \<open>
  \<^verbatim>\<open>const num = (v, d = 2) => v == null || !isFinite(+v) ? "" :
     Number(v).toLocaleString(undefined, {maximumFractionDigits: d, minimumFractionDigits: d})\<close>
\<close>

definition num :: "'n numops \<Rightarrow> 'n jsval \<Rightarrow> nat \<Rightarrow> js_error + string" where
  "num ops v d =
     (if eq_null v then Inr []
      else case ToNumber ops v of
        Inl e \<Rightarrow> Inl e
      | Inr n \<Rightarrow>
          (case n of
             Finite x \<Rightarrow> Inr (toLocaleString ops x d)
           | _ \<Rightarrow> Inr []))"

text \<open>
  \<^verbatim>\<open>const pct = (v) => v == null || !isFinite(+v) ? "" :
     `${(Math.abs(+v) <= 1 ? +v * 100 : +v).toFixed(2)}%`\<close>
\<close>

definition pct :: "'n numops \<Rightarrow> 'n jsval \<Rightarrow> js_error + string" where
  "pct ops v =
     (if eq_null v then Inr []
      else case ToNumber ops v of
        Inl e \<Rightarrow> Inl e
      | Inr n \<Rightarrow>
          (case n of
             Finite x \<Rightarrow>
               Inr (number_toFixed ops (if abs_le_one ops x then times100 ops x else Finite x) 2 @ ''%'')
           | _ \<Rightarrow> Inr []))"

text \<open>The product \<^verbatim>\<open>v * 100\<close> of a number, as an expression outside \<^verbatim>\<open>pct\<close>.\<close>

fun number_times100 :: "'n numops \<Rightarrow> 'n number \<Rightarrow> 'n number" where
  "number_times100 ops (Finite x) = times100 ops x"
| "number_times100 ops n = n"

subsection \<open>Decimal and hexadecimal digits\<close>

definition digit_char :: "nat \<Rightarrow> char" where
  "digit_char d = ''0123456789ABCDEF'' ! d"

text \<open>The decimal numeral of a natural number, as a template literal prints it.\<close>

function dec :: "nat \<Rightarrow> string" where
  "dec n = (if n < 10 then [digit_char n] else dec (n div 10) @ [digit_char (n mod 10)])"
  by pat_completeness auto
termination
  by (relation "measure id") auto

declare dec.simps [simp del]

text \<open>Reading a decimal numeral: the digits of \<open>s\<close> appended to the number \<open>acc\<close>, if
  \<open>s\<close> holds digits only.\<close>

fun digits_nat :: "string \<Rightarrow> nat \<Rightarrow> nat option" where
  "digits_nat [] acc = Some acc"
| "digits_nat (c # cs) acc =
     (if 48 \<le> (of_char c :: nat) \<and> (of_char c :: nat) \<le> 57
      then digits_nat cs (acc * 10 + (of_char c - 48))
      else None)"

subsection \<open>Strings: splitting, percent-encoding, UTF-8\<close>

text \<open>
  \<^verbatim>\<open>s.split(c)\<close> for a one-character separator: the pieces between the occurrences
  of \<open>c\<close>, in order; there is always at least one piece.
\<close>

function split :: "char \<Rightarrow> string \<Rightarrow> string list" where
  "split c s =
     (case dropWhile (\<lambda>x. x \<noteq> c) s of
        [] \<Rightarrow> [s]
      | _ # r \<Rightarrow> takeWhile (\<lambda>x. x \<noteq> c) s # split c r)"
  by pat_completeness auto
termination
proof (relation "measure (\<lambda>(c, s). length s)")
  show "wf (measure (\<lambda>(c, s). length s))" by simp
next
  fix c :: char and s :: string and x r
  assume "dropWhile (\<lambda>x. x \<noteq> c) s = x # r"
  then have "length (x # r) \<le> length s"
    using length_dropWhile_le [of "\<lambda>x. x \<noteq> c" s] by simp
  then show "((c, r), (c, s)) \<in> measure (\<lambda>(c, s). length s)" by simp
qed

declare split.simps [simp del]

definition pct_byte :: "char \<Rightarrow> string" where
  "pct_byte c = [CHR ''%'', digit_char (of_char c div 16), digit_char (of_char c mod 16)]"

definition hex_val :: "char \<Rightarrow> nat option" where
  "hex_val c =
     (let n = of_char c :: nat in
      if 48 \<le> n \<and> n \<le> 57 then Some (n - 48)
      else if 65 \<le> n \<and> n \<le> 70 then Some (n - 55)
      else if 97 \<le> n \<and> n \<le> 102 then Some (n - 87)
      else None)"

text \<open>Percent-decoding of a byte sequence (URL Standard): a \<^verbatim>\<open>%\<close> that two hex digits
  do not follow stands for itself.\<close>

fun percent_decode :: "string \<Rightarrow> string" where
  "percent_decode [] = []"
| "percent_decode (c # r) =
     (if c = CHR ''%'' then
        (case r of
           h # l # r' \<Rightarrow>
             (case (hex_val h, hex_val l) of
                (Some a, Some b) \<Rightarrow> char_of (16 * a + b) # percent_decode r'
              | _ \<Rightarrow> c # percent_decode r)
         | _ \<Rightarrow> c # percent_decode r)
      else c # percent_decode r)"

text \<open>
  \<^verbatim>\<open>encodeURIComponent\<close>: the unreserved characters \<^verbatim>\<open>A-Z a-z 0-9 - _ . ! ~ * ' ( )\<close>
  stay, every other byte of the UTF-8 encoding becomes \<^verbatim>\<open>%XX\<close>.
\<close>

definition alnum :: "char \<Rightarrow> bool" where
  "alnum c =
     (let n = of_char c :: nat in
      (48 \<le> n \<and> n \<le> 57) \<or> (65 \<le> n \<and> n \<le> 90) \<or> (97 \<le> n \<and> n \<le> 122))"

definition uri_unreserved :: "char \<Rightarrow> bool" where
  "uri_unreserved c = (alnum c \<or> c \<in> set ''-_.!~*'' \<or> c = CHR 0x27 \<or> c \<in> set ''()'')"

definition encodeURIComponent :: "string \<Rightarrow> string" where
  "encodeURIComponent s = concat (map (\<lambda>c. if uri_unreserved c then [c] else pct_byte c) s)"

text \<open>
  The UTF-8 decoder of the Encoding Standard, on the byte representation: a well-formed
  sequence is kept, and each maximal ill-formed part is replaced by U+FFFD, whose
  encoding is \<open>EF BF BD\<close>.
\<close>

definition REPLACEMENT :: string where
  "REPLACEMENT = [char_of (0xEF :: nat), char_of (0xBF :: nat), char_of (0xBD :: nat)]"

definition in_range :: "nat \<Rightarrow> nat \<Rightarrow> char \<Rightarrow> bool" where
  "in_range lo hi c = (lo \<le> of_char c \<and> of_char c \<le> hi)"

definition second_lo :: "nat \<Rightarrow> nat" where
  "second_lo lead = (if lead = 0xE0 then 0xA0 else if lead = 0xF0 then 0x90 else 0x80)"

definition second_hi :: "nat \<Rightarrow> nat" where
  "second_hi lead = (if lead = 0xED then 0x9F else if lead = 0xF4 then 0x8F else 0xBF)"

fun utf8_decode :: "string \<Rightarrow> string" where
  "utf8_decode [] = []"
| "utf8_decode (b # bs) =
     (let n = of_char b :: nat in
      if n < 0x80 then b # utf8_decode bs
      else if 0xC2 \<le> n \<and> n \<le> 0xDF then
        (case bs of
           [] \<Rightarrow> REPLACEMENT
         | c1 # r1 \<Rightarrow>
             if \<not> in_range 0x80 0xBF c1 then REPLACEMENT @ utf8_decode bs
             else b # c1 # utf8_decode r1)
      else if 0xE0 \<le> n \<and> n \<le> 0xEF then
        (case bs of
           [] \<Rightarrow> REPLACEMENT
         | c1 # r1 \<Rightarrow>
             if \<not> in_range (second_lo n) (second_hi n) c1 then REPLACEMENT @ utf8_decode bs
             else
               (case r1 of
                  [] \<Rightarrow> REPLACEMENT
                | c2 # r2 \<Rightarrow>
                    if \<not> in_range 0x80 0xBF c2 then REPLACEMENT @ utf8_decode r1
                    else b # c1 # c2 # utf8_decode r2))
      else if 0xF0 \<le> n \<and> n \<le> 0xF4 then
        (case bs of
           [] \<Rightarrow> REPLACEMENT
         | c1 # r1 \<Rightarrow>
             if \<not> in_range (second_lo n) (second_hi n) c1 then REPLACEMENT @ utf8_decode bs
             else
               (case r1 of
                  [] \<Rightarrow> REPLACEMENT
                | c2 # r2 \<Rightarrow>
                    if \<not> in_range 0x80 0xBF c2 then REPLACEMENT @ utf8_decode r1
                    else
                      (case r2 of
                         [] \<Rightarrow> REPLACEMENT
                       | c3 # r3 \<Rightarrow>
                           if \<not> in_range 0x80 0xBF c3 then REPLACEMENT @ utf8_decode r2
                           else b # c1 # c2 # c3 # utf8_decode r3)))
      else REPLACEMENT @ utf8_decode bs)"

text \<open>
  The strings that are the UTF-8 encoding of a sequence of Unicode scalar values
  (Unicode Standard, table 3-7): the representations of the JavaScript strings without
  a lone surrogate.
\<close>

fun well_formed :: "string \<Rightarrow> bool" where
  "well_formed [] = True"
| "well_formed (b # bs) =
     (let n = of_char b :: nat in
      if n < 0x80 then well_formed bs
      else if 0xC2 \<le> n \<and> n \<le> 0xDF then
        (case bs of
           c1 # r \<Rightarrow> in_range 0x80 0xBF c1 \<and> well_formed r
         | _ \<Rightarrow> False)
      else if 0xE0 \<le> n \<and> n \<le> 0xEF then
        (case bs of
           c1 # c2 # r \<Rightarrow>
             in_range (second_lo n) (second_hi n) c1 \<and> in_range 0x80 0xBF c2 \<and> well_formed r
         | _ \<Rightarrow> False)
      else if 0xF0 \<le> n \<and> n \<le> 0xF4 then
        (case bs of
           c1 # c2 # c3 # r \<Rightarrow>
             in_range (second_lo n) (second_hi n) c1 \<and> in_range 0x80 0xBF c2
             \<and> in_range 0x80 0xBF c3 \<and> well_formed r
         | _ \<Rightarrow> False)
      else False)"

subsection \<open>Query parameters\<close>

text \<open>
  A \<^verbatim>\<open>URLSearchParams\<close> object is its list of name-value pairs. The constructor on a
  string drops one leading \<^verbatim>\<open>?\<close> and runs the \<^verbatim>\<open>application/x-www-form-urlencoded\<close>
  parser: the non-empty pieces between \<^verbatim>\<open>&\<close> are cut at their first \<^verbatim>\<open>=\<close>, each
  \<^verbatim>\<open>+\<close> is a space, and name and value are percent-decoded and then UTF-8 decoded.
\<close>

type_synonym URLSearchParams = "(string \<times> string) list"

definition form_decode :: "string \<Rightarrow> string" where
  "form_decode s = utf8_decode (percent_decode (map (\<lambda>c. if c = CHR ''+'' then CHR '' '' else c) s))"

definition parse_pair :: "string \<Rightarrow> string \<times> string" where
  "parse_pair q =
     (form_decode (takeWhile (\<lambda>c. c \<noteq> CHR ''='') q),
      form_decode (drop 1 (dropWhile (\<lambda>c. c \<noteq> CHR ''='') q)))"

definition new_URLSearchParams :: "string \<Rightarrow> URLSearchParams" where
  "new_URLSearchParams init =
     (let s = (case init of c # r \<Rightarrow> if c = CHR ''?'' then r else init | [] \<Rightarrow> init)
      in map parse_pair (filter (\<lambda>q. q \<noteq> []) (split CHR ''&'' s)))"

text \<open>\<^verbatim>\<open>qs.get(k)\<close>: the value of the first pair named \<open>k\<close>, or \<^verbatim>\<open>null\<close>.\<close>

definition qs_get :: "URLSearchParams \<Rightarrow> string \<Rightarrow> string option" where
  "qs_get qs k = map_of qs k"

text \<open>\<^verbatim>\<open>params.set(k, v)\<close>: the first pair named \<open>k\<close> gets the value and the others
  named \<open>k\<close> go; without such a pair, one is appended.\<close>

fun qs_set :: "URLSearchParams \<Rightarrow> string \<Rightarrow> string \<Rightarrow> URLSearchParams" where
  "qs_set [] k v = [(k, v)]"
| "qs_set ((k', v') # qs) k v =
     (if k' = k then (k, v) # filter (\<lambda>p. fst p \<noteq> k) qs else (k', v') # qs_set qs k v)"

text \<open>\<^verbatim>\<open>params.toString()\<close>, the \<^verbatim>\<open>application/x-www-form-urlencoded\<close> serializer.\<close>

definition form_encode :: "string \<Rightarrow> string" where
  "form_encode s =
     concat (map (\<lambda>c. if c = CHR '' '' then ''+''
                       else if alnum c \<or> c \<in> set ''*-._'' then [c]
                       else pct_byte c) s)"

definition qs_toString :: "URLSearchParams \<Rightarrow> string" where
  "qs_toString qs = join ''&'' (map (\<lambda>p. form_encode (fst p) @ ''='' @ form_encode (snd p)) qs)"

subsection \<open>Hash router\<close>

text \<open>
  The route is \<^verbatim>\<open>{name: "home", qs}\<close> or \<^verbatim>\<open>{name: "acct", addr, qs}\<close>.
\<close>

datatype route = Home URLSearchParams | Acct string URLSearchParams

fun name :: "route \<Rightarrow> string" where
  "name (Home qs) = ''home''"
| "name (Acct a qs) = ''acct''"

text \<open>
  \<^verbatim>\<open>
  function parseRoute(hash){
    const clean = hash.replace(/^#/, "");
    const [path, queryStr] = clean.split("?");
    const qs = new URLSearchParams(queryStr || "");
    const parts = path.split("/").filter(Boolean);
    if (parts[0] === "acct" && parts[1]) return { name: "acct", addr: parts[1], qs };
    return { name: "home", qs };
  }\<close>
  Were \<^verbatim>\<open>split\<close> to return no piece, \<^verbatim>\<open>path\<close> would be \<^verbatim>\<open>undefined\<close> and
  \<^verbatim>\<open>path.split\<close> would throw a \<^verbatim>\<open>TypeError\<close>: that is the first branch below.
\<close>

definition parseRoute :: "string \<Rightarrow> js_error + route" where
  "parseRoute hash =
     (let clean = (case hash of c # r \<Rightarrow> if c = CHR ''#'' then r else hash | [] \<Rightarrow> hash)
      in case split CHR ''?'' clean of
           [] \<Rightarrow> Inl (TypeError ''Cannot read properties of undefined (reading 'split')'')
         | path # rest \<Rightarrow>
             let queryStr = (case rest of [] \<Rightarrow> [] | q # _ \<Rightarrow> q);
                 qs = new_URLSearchParams queryStr;
                 parts = filter (\<lambda>p. p \<noteq> []) (split CHR ''/'' path)
             in case parts of
                  p0 # p1 # _ \<Rightarrow> if p0 = ''acct'' \<and> p1 \<noteq> [] then Inr (Acct p1 qs) else Inr (Home qs)
                | _ \<Rightarrow> Inr (Home qs))"

text \<open>
  The grammar of the fragment in words, to compare \<^verbatim>\<open>parseRoute\<close> with. The path of a
  fragment is what stands between one leading \<^verbatim>\<open>#\<close>, if there is one, and the first
  \<^verbatim>\<open>?\<close>; its query string is what stands between the first \<^verbatim>\<open>?\<close> and the second. The
  segments of a path are its maximal runs of characters other than \<^verbatim>\<open>/\<close>. A fragment
  matches \<^verbatim>\<open>#/acct/<nonempty>\<close> when the first segment of its path is the literal
  \<^verbatim>\<open>acct\<close> and a non-empty second segment follows.
\<close>

definition drop_hash :: "string \<Rightarrow> string" where
  "drop_hash f = (case f of c # r \<Rightarrow> if c = CHR ''#'' then r else f | [] \<Rightarrow> f)"

definition fragment_path :: "string \<Rightarrow> string" where
  "fragment_path f = takeWhile (\<lambda>c. c \<noteq> CHR ''?'') (drop_hash f)"

definition fragment_query :: "string \<Rightarrow> string" where
  "fragment_query f =
     takeWhile (\<lambda>c. c \<noteq> CHR ''?'') (drop 1 (dropWhile (\<lambda>c. c \<noteq> CHR ''?'') (drop_hash f)))"

function segments :: "string \<Rightarrow> string list" where
  "segments s =
     (case dropWhile (\<lambda>c. c = CHR ''/'') s of
        [] \<Rightarrow> []
      | x # r \<Rightarrow> (x # takeWhile (\<lambda>c. c \<noteq> CHR ''/'') r) # segments (dropWhile (\<lambda>c. c \<noteq> CHR ''/'') r))"
  by pat_completeness auto
termination
proof (relation "measure length")
  show "wf (measure length)" by simp
next
  fix s :: string and x r
  assume "dropWhile (\<lambda>c. c = CHR ''/'') s = x # r"
  then have "length (x # r) \<le> length s"
    using length_dropWhile_le [of "\<lambda>c. c = CHR ''/''" s] by simp
  moreover have "length (dropWhile (\<lambda>c. c \<noteq> CHR ''/'') r) \<le> length r"
    by (rule length_dropWhile_le)
  ultimately show "(dropWhile (\<lambda>c. c \<noteq> CHR ''/'') r, s) \<in> measure length" by simp
qed

declare segments.simps [simp del]

definition acct_fragment :: "string \<Rightarrow> bool" where
  "acct_fragment f =
     (case segments (fragment_path f) of
        p0 # p1 # ps \<Rightarrow> p0 = ''acct'' \<and> p1 \<noteq> []
      | _ \<Rightarrow> False)"

subsection \<open>Share link\<close>

text \<open>
  The \<^verbatim>\<open>hash\<close> setter of a URL (URL Standard): an empty value removes the fragment;
  otherwise one leading \<^verbatim>\<open>#\<close> goes, tabs and newlines are removed, and every byte in the
  fragment percent-encode set (C0 controls, space \<open>0x20\<close>, the double quote \<open>0x22\<close>,
  \<^verbatim>\<open><\<close> \<open>0x3C\<close>, \<^verbatim>\<open>>\<close> \<open>0x3E\<close>, the backquote \<open>0x60\<close>, and everything above \<^verbatim>\<open>~\<close>) is
  percent-encoded. Of the URL only the part before the fragment and the
  fragment are kept apart; the rest is carried along unchanged.
\<close>

record url =
  before_hash :: string
  fragment :: "string option"

definition new_URL :: "string \<Rightarrow> url" where
  "new_URL href =
     \<lparr> before_hash = takeWhile (\<lambda>c. c \<noteq> CHR ''#'') href,
       fragment = (case dropWhile (\<lambda>c. c \<noteq> CHR ''#'') href of [] \<Rightarrow> None | _ # f \<Rightarrow> Some f) \<rparr>"

definition fragment_encode_set :: "char \<Rightarrow> bool" where
  "fragment_encode_set c =
     ((of_char c :: nat) < 0x20 \<or> 0x7E < (of_char c :: nat)
      \<or> (of_char c :: nat) \<in> {0x20, 0x22, 0x3C, 0x3E, 0x60})"

definition tab_or_newline :: "char \<Rightarrow> bool" where
  "tab_or_newline c = ((of_char c :: nat) \<in> {0x09, 0x0A, 0x0D})"

definition set_hash :: "url \<Rightarrow> string \<Rightarrow> url" where
  "set_hash u v =
     (if v = [] then u\<lparr>fragment := None\<rparr>
      else
        let input = (case v of c # r \<Rightarrow> if c = CHR ''#'' then r else v | [] \<Rightarrow> v)
        in u\<lparr>fragment :=
              Some (concat (map (\<lambda>c. if fragment_encode_set c then pct_byte c else [c])
                              (filter (\<lambda>c. \<not> tab_or_newline c) input)))\<rparr>)"

definition url_toString :: "url \<Rightarrow> string" where
  "url_toString u = before_hash u @ (case fragment u of None \<Rightarrow> [] | Some f \<Rightarrow> CHR ''#'' # f)"

text \<open>\<^verbatim>\<open>location.hash\<close> of a URL string: the fragment with its \<^verbatim>\<open>#\<close>, or the empty string
  when the fragment is missing or empty.\<close>

definition location_hash :: "string \<Rightarrow> string" where
  "location_hash href =
     (case fragment (new_URL href) of None \<Rightarrow> [] | Some f \<Rightarrow> if f = [] then [] else CHR ''#'' # f)"

text \<open>
  \<^verbatim>\<open>
  function shareUrl(addr, baseUrl){
    const u = new URL(window.location.href);
    u.hash = `#/acct/${addr}?base=${encodeURIComponent(baseUrl)}`;
    return u.toString();
  }\<close>
  The first argument is \<^verbatim>\<open>window.location.href\<close>.
\<close>

definition shareUrl :: "string \<Rightarrow> string \<Rightarrow> string \<Rightarrow> string" where
  "shareUrl href a b =
     url_toString (set_hash (new_URL href) (''#/acct/'' @ a @ ''?base='' @ encodeURIComponent b))"

subsection \<open>Remote data client\<close>

text \<open>
  What the network does with one request: the moment (in milliseconds after the call)
  at which the awaited promise would settle, if it ever does; the reply, either a
  network failure, on which \<^verbatim>\<open>fetch\<close> rejects with a \<^verbatim>\<open>TypeError\<close>, or a response with
  its status and with what \<^verbatim>\<open>res.json()\<close> makes of its body (the parsed value or a
  \<^verbatim>\<open>SyntaxError\<close>); and the message of the \<^verbatim>\<open>AbortError\<close> with which the browser rejects
  an aborted request.
\<close>

datatype 'n reply = NetworkFailure string | Response nat "js_error + 'n jsval"

record 'n exchange =
  settles_at :: "nat option"
  reply :: "'n reply"
  abort_message :: string

text \<open>
  \<^verbatim>\<open>
  async function fetchJson(url, opts = {}) {
    const { timeoutMs = 15000, ...rest } = opts;
    const ctrl = new AbortController();
    const to = setTimeout(() => ctrl.abort(), timeoutMs);
    try {
      const res = await fetch(url, { ...rest, signal: ctrl.signal, headers: {...} });
      if (!res.ok) throw new Error(`HTTP ${res.status}`);
      return await res.json();
    } finally { clearTimeout(to); }
  }\<close>
  The timer wins when the request has not settled before \<open>timeoutMs\<close>.
  \<^verbatim>\<open>res.ok\<close> is a status from 200 to 299.
\<close>

definition res_ok :: "nat \<Rightarrow> bool" where
  "res_ok status = (200 \<le> status \<and> status \<le> 299)"

definition fetchJson :: "(string \<Rightarrow> 'n exchange) \<Rightarrow> string \<Rightarrow> nat \<Rightarrow> js_error + 'n jsval" where
  "fetchJson net u timeoutMs =
     (let x = net u in
      case settles_at x of
        None \<Rightarrow> Inl (AbortError (abort_message x))
      | Some t \<Rightarrow>
          if timeoutMs \<le> t then Inl (AbortError (abort_message x))
          else
            (case reply x of
               NetworkFailure m \<Rightarrow> Inl (TypeError m)
             | Response status body \<Rightarrow>
                 if \<not> res_ok status then Inl (Error (''HTTP '' @ dec status))
                 else body))"

subsection \<open>Dashboard\<close>

text \<open>
  The property \<open>k\<close> of a value read out of the response. On \<^verbatim>\<open>null\<close> and
  \<^verbatim>\<open>undefined\<close> the read throws; an object gives the value stored under \<open>k\<close> or
  \<^verbatim>\<open>undefined\<close>. The names read by the source (\<^verbatim>\<open>ok\<close>, \<^verbatim>\<open>error\<close>) are no
  properties of a number, a string, a boolean or an array.
\<close>

fun get_prop :: "'n jsval \<Rightarrow> string \<Rightarrow> js_error + 'n jsval" where
  "get_prop Undefined k = Inl (TypeError (''Cannot read properties of undefined (reading '' @ k @ '')''))"
| "get_prop Null k = Inl (TypeError (''Cannot read properties of null (reading '' @ k @ '')''))"
| "get_prop (Obj kvs) k = Inr (case map_of kvs k of None \<Rightarrow> Undefined | Some v \<Rightarrow> v)"
| "get_prop v k = Inr Undefined"

text \<open>The component instance: its prop \<^verbatim>\<open>addr\<close> and its state variables.\<close>

record 'n dashboard =
  addr :: string
  baseUrl :: string
  period :: string
  includePositions :: bool
  includeClosed :: bool
  loading :: bool
  error :: string
  data :: "'n jsval"

text \<open>\<^verbatim>\<open>a || d\<close> for a string or \<^verbatim>\<open>null\<close> \<open>a\<close>: \<open>d\<close> when \<open>a\<close> is \<^verbatim>\<open>null\<close> or empty.\<close>

definition or_else :: "string option \<Rightarrow> string \<Rightarrow> string" where
  "or_else a d = (case a of None \<Rightarrow> d | Some v \<Rightarrow> if v = [] then d else v)"

text \<open>
  Mounting: the initial state, and the local storage after the effect that stores the
  base URL has run.
  \<^verbatim>\<open>
  const [baseUrl, setBaseUrl] = useState(() => qs.get("base") || localStorage.getItem("ps_base") || DEFAULT_BASE);
  const [period, setPeriod] = useState(() => qs.get("period") || "week");
  const [includePositions, setIncludePositions] = useState(true);
  const [includeClosed, setIncludeClosed] = useState(true);
  const [loading, setLoading] = useState(false);
  const [error, setError] = useState("");
  const [data, setData] = useState(null);
  useEffect(()=>{ localStorage.setItem("ps_base", baseUrl); }, [baseUrl]);\<close>
\<close>

definition Dashboard_initial :: "(string \<rightharpoonup> string) \<Rightarrow> string \<Rightarrow> URLSearchParams \<Rightarrow> 'n dashboard" where
  "Dashboard_initial localStorage a qs =
     \<lparr> addr = a,
       baseUrl = or_else (qs_get qs ''base'') (or_else (localStorage ''ps_base'') DEFAULT_BASE),
       period = or_else (qs_get qs ''period'') ''week'',
       includePositions = True,
       includeClosed = True,
       loading = False,
       error = [],
       data = Null \<rparr>"

definition Dashboard_mount ::
  "(string \<rightharpoonup> string) \<Rightarrow> string \<Rightarrow> URLSearchParams \<Rightarrow> 'n dashboard \<times> (string \<rightharpoonup> string)" where
  "Dashboard_mount localStorage a qs =
     (let st = Dashboard_initial localStorage a qs
      in (st, localStorage(''ps_base'' \<mapsto> baseUrl st)))"

text \<open>\<^verbatim>\<open>baseUrl.replace(/\/$/, "")\<close>: one trailing slash goes.\<close>

definition strip_slash :: "string \<Rightarrow> string" where
  "strip_slash s = (if s \<noteq> [] \<and> last s = CHR ''/'' then butlast s else s)"

text \<open>The URL that \<^verbatim>\<open>run\<close> requests; \<open>now\<close> is \<^verbatim>\<open>Date.now()\<close>.\<close>

definition request_url :: "'n dashboard \<Rightarrow> nat \<Rightarrow> string" where
  "request_url st now =
     (let params = [(''account'', addr st), (''period'', period st), (''_ts'', dec (now div 1000))];
          params = (if includePositions st then qs_set params ''positions'' ''1'' else params);
          params = (if includeClosed st then qs_set params ''closed'' ''1'' else params)
      in strip_slash (baseUrl st) @ ''/pnlClean?'' @ qs_toString params)"

text \<open>
  The body of the \<^verbatim>\<open>try\<close> block of \<^verbatim>\<open>run\<close>: the value it hands to \<^verbatim>\<open>setData\<close>, or the
  error it throws.
  \<^verbatim>\<open>
      const json = await fetchJson(url, { timeoutMs: 15000 });
      if (!json.ok) throw new Error(json.error || "ok=false");
      setData(json);\<close>
  \<^verbatim>\<open>new Error(x)\<close> has the message \<^verbatim>\<open>ToString(x)\<close>.
\<close>

definition run_try :: "'n numops \<Rightarrow> (string \<Rightarrow> 'n exchange) \<Rightarrow> nat \<Rightarrow> 'n dashboard \<Rightarrow> js_error + 'n jsval" where
  "run_try ops net now st =
     (case fetchJson net (request_url st now) 15000 of
        Inl e \<Rightarrow> Inl e
      | Inr json \<Rightarrow>
          (case get_prop json ''ok'' of
             Inl e \<Rightarrow> Inl e
           | Inr ok \<Rightarrow>
               if \<not> truthy ops ok then
                 (case get_prop json ''error'' of
                    Inl e \<Rightarrow> Inl e
                  | Inr err \<Rightarrow>
                      (case ToString ops (if truthy ops err then err else Str ''ok=false'') of
                         Inl e \<Rightarrow> Inl e
                       | Inr m \<Rightarrow> Inl (Error m)))
               else Inr json))"

text \<open>
  \<^verbatim>\<open>
  async function run(){
    setLoading(true); setError(""); setData(null);
    try { ... }
    catch(e){ setError(e?.message || String(e)); }
    finally{ setLoading(false); }
  }\<close>
  The state when \<^verbatim>\<open>run\<close> has completed.
\<close>

definition run :: "'n numops \<Rightarrow> (string \<Rightarrow> 'n exchange) \<Rightarrow> nat \<Rightarrow> 'n dashboard \<Rightarrow> 'n dashboard" where
  "run ops net now st =
     (let st1 = st\<lparr>loading := True, error := [], data := Null\<rparr>;
          st2 = (case run_try ops net now st of
                   Inr json \<Rightarrow> st1\<lparr>data := json\<rparr>
                 | Inl e \<Rightarrow> st1\<lparr>error := (if message e \<noteq> [] then message e else error_String e)\<rparr>)
      in st2\<lparr>loading := False\<rparr>)"

text \<open>
  Rendering evaluates more than it shows: every expression of the JSX under
  \<^verbatim>\<open>{data && (...)}\<close> is computed, and an exception there, or a value that React does
  not accept as a child, takes the whole tree down, since no error boundary stands
  above the Dashboard. What follows says when those expressions go through. Outside
  that block nothing throws: \<^verbatim>\<open>addr.slice\<close> is total on a string, and \<^verbatim>\<open>shareUrl\<close>, called
  at every render, throws only through \<^verbatim>\<open>encodeURIComponent\<close> on a lone surrogate, which
  the strings of this model do not contain.

  \<^verbatim>\<open>v?.k\<close>: \<^verbatim>\<open>undefined\<close> on \<^verbatim>\<open>null\<close> and \<^verbatim>\<open>undefined\<close>, the property otherwise. The names
  read while rendering (\<^verbatim>\<open>period\<close>, \<^verbatim>\<open>roi\<close>, \<^verbatim>\<open>coin\<close>, \<^verbatim>\<open>size\<close> and so on) are no
  properties of a number, a string, a boolean or an array either.
\<close>

definition optional_get :: "'n jsval \<Rightarrow> string \<Rightarrow> 'n jsval" where
  "optional_get v k = (case get_prop v k of Inl e \<Rightarrow> Undefined | Inr x \<Rightarrow> x)"

text \<open>\<^verbatim>\<open>a || b\<close> and \<^verbatim>\<open>a ?? b\<close> on values.\<close>

definition js_or :: "'n numops \<Rightarrow> 'n jsval \<Rightarrow> 'n jsval \<Rightarrow> 'n jsval" where
  "js_or ops a b = (if truthy ops a then a else b)"

definition nullish_or :: "'n jsval \<Rightarrow> 'n jsval \<Rightarrow> 'n jsval" where
  "nullish_or a b = (if eq_null a then b else a)"

text \<open>An evaluation goes through when it does not throw.\<close>

definition goes_through :: "js_error + 'a \<Rightarrow> bool" where
  "goes_through r = (\<not> isl r)"

text \<open>
  What React accepts as a child: strings and numbers are text, \<^verbatim>\<open>null\<close>, \<^verbatim>\<open>undefined\<close>
  and booleans are nothing, an array is accepted when its elements are, and a plain
  object is refused with an error.
\<close>

fun valid_child :: "'n jsval \<Rightarrow> bool" where
  "valid_child (Obj kvs) = False"
| "valid_child (Arr xs) = list_all valid_child xs"
| "valid_child v = True"

text \<open>
  \<^verbatim>\<open>const ts = (ms) => !ms ? "" : new Date(ms).toLocaleString();\<close>
  \<^verbatim>\<open>new Date(v)\<close> first converts \<open>v\<close> to a primitive, which throws where \<^verbatim>\<open>ToString\<close>
  does; on a primitive neither the constructor nor \<^verbatim>\<open>toLocaleString\<close> throws.
\<close>

definition ts_goes_through :: "'n numops \<Rightarrow> 'n jsval \<Rightarrow> bool" where
  "ts_goes_through ops ms = (if truthy ops ms then goes_through (ToString ops ms) else True)"

text \<open>
  One row of the positions table (\<^verbatim>\<open>positions.map((p, i) => <tr>...</tr>)\<close>): the reads
  \<^verbatim>\<open>p.symbolPretty\<close> and so on throw on a \<^verbatim>\<open>null\<close> element; the cells are
  \<^verbatim>\<open>{p.symbolPretty || p.coin}\<close>, \<^verbatim>\<open>{p.side}\<close>, \<^verbatim>\<open>{num(p.size, 4)} {p.coin}\<close>,
  \<^verbatim>\<open>{num(p.entryPx, 6)}\<close>, \<^verbatim>\<open>{num(p.markPx, 6)}\<close>, \<^verbatim>\<open>${num(p.notional)}\<close>,
  \<^verbatim>\<open>${num(p.unrealizedPnl)}\<close>, \<^verbatim>\<open>{pct(p.roePct)}\<close>, \<^verbatim>\<open>{pct(p.basisPct)}\<close>,
  \<^verbatim>\<open>{p.leverage ?? ""}\<close>, \<^verbatim>\<open>{num(p.liqPx, 5)}\<close> and \<^verbatim>\<open>{p.entryTs ? ts(p.entryTs) : ""}\<close>.
\<close>

definition position_row :: "'n numops \<Rightarrow> 'n jsval \<Rightarrow> bool" where
  "position_row ops p =
     (\<not> eq_null p
      \<and> valid_child (js_or ops (optional_get p ''symbolPretty'') (optional_get p ''coin''))
      \<and> valid_child (optional_get p ''side'')
      \<and> goes_through (num ops (optional_get p ''size'') 4)
      \<and> valid_child (optional_get p ''coin'')
      \<and> goes_through (num ops (optional_get p ''entryPx'') 6)
      \<and> goes_through (num ops (optional_get p ''markPx'') 6)
      \<and> goes_through (num ops (optional_get p ''notional'') 2)
      \<and> goes_through (num ops (optional_get p ''unrealizedPnl'') 2)
      \<and> goes_through (pct ops (optional_get p ''roePct''))
      \<and> goes_through (pct ops (optional_get p ''basisPct''))
      \<and> valid_child (nullish_or (optional_get p ''leverage'') (Str []))
      \<and> goes_through (num ops (optional_get p ''liqPx'') 5)
      \<and> ts_goes_through ops (optional_get p ''entryTs''))"

text \<open>
  One row of the closed-trades table: \<^verbatim>\<open>{ts(c.endTs)}\<close>, \<^verbatim>\<open>{c.symbolPretty || c.coin}\<close>,
  \<^verbatim>\<open>{c.direction}\<close>, \<^verbatim>\<open>{num(c.durationMs/1000, 0)}s\<close>, \<^verbatim>\<open>{num(c.sizeClosed, 4)}\<close>,
  \<^verbatim>\<open>{num(c.avgEntryPx, 6)}\<close>, \<^verbatim>\<open>{num(c.exitPx, 6)}\<close>, \<^verbatim>\<open>${num(c.pnl)}\<close>, \<^verbatim>\<open>${num(c.fees)}\<close>
  and \<^verbatim>\<open>${num(c.netPnl)}\<close>. The division converts \<^verbatim>\<open>c.durationMs\<close> to a number, and
  \<^verbatim>\<open>num\<close> of the quotient, a number, does not throw.
\<close>

definition closed_row :: "'n numops \<Rightarrow> 'n jsval \<Rightarrow> bool" where
  "closed_row ops c =
     (\<not> eq_null c
      \<and> ts_goes_through ops (optional_get c ''endTs'')
      \<and> valid_child (js_or ops (optional_get c ''symbolPretty'') (optional_get c ''coin''))
      \<and> valid_child (optional_get c ''direction'')
      \<and> goes_through (ToNumber ops (optional_get c ''durationMs''))
      \<and> goes_through (num ops (optional_get c ''sizeClosed'') 4)
      \<and> goes_through (num ops (optional_get c ''avgEntryPx'') 6)
      \<and> goes_through (num ops (optional_get c ''exitPx'') 6)
      \<and> goes_through (num ops (optional_get c ''pnl'') 2)
      \<and> goes_through (num ops (optional_get c ''fees'') 2)
      \<and> goes_through (num ops (optional_get c ''netPnl'') 2))"

text \<open>
  A table over \<^verbatim>\<open>data?.positions ?? []\<close> or \<^verbatim>\<open>data?.closed ?? []\<close>: \<^verbatim>\<open>rows.map\<close> is a
  function on an array only (a string, a number, a boolean have no \<^verbatim>\<open>map\<close>, and a
  \<^verbatim>\<open>map\<close> property of a parsed object is not callable), and \<^verbatim>\<open>rows.length\<close> of an
  array is a number.
\<close>

definition table :: "('n jsval \<Rightarrow> bool) \<Rightarrow> 'n jsval \<Rightarrow> bool" where
  "table row rows = (case nullish_or rows (Arr []) of Arr xs \<Rightarrow> list_all row xs | _ \<Rightarrow> False)"

text \<open>
  The summary cards: \<^verbatim>\<open>InfoCard\<close> renders \<^verbatim>\<open>{value || dash}\<close>, the dash being an em dash, and
  \<^verbatim>\<open>{sub && <div>{sub}</div>}\<close>,
  so \<^verbatim>\<open>data.period\<close> and \<^verbatim>\<open>data.method\<close> become children; the other values and subtitles
  are template strings over \<^verbatim>\<open>num\<close> and \<^verbatim>\<open>pct\<close>. The window card calls \<^verbatim>\<open>ts\<close> and \<^verbatim>\<open>num\<close>.
\<close>

definition EM_DASH :: string where
  "EM_DASH = [char_of (0xE2 :: nat), char_of (0x80 :: nat), char_of (0x94 :: nat)]"

definition summary_cards :: "'n numops \<Rightarrow> 'n jsval \<Rightarrow> bool" where
  "summary_cards ops d =
     (valid_child (js_or ops (optional_get d ''period'') (Str EM_DASH))
      \<and> valid_child (optional_get d ''method'')
      \<and> goes_through (num ops (optional_get d ''perp_pnl'') 2)
      \<and> goes_through (pct ops (optional_get (optional_get d ''roi'') ''trading_pct''))
      \<and> goes_through (num ops (optional_get d ''balance_change'') 2)
      \<and> goes_through (pct ops (optional_get (optional_get d ''roi'') ''portfolio_pct''))
      \<and> goes_through (num ops (optional_get (optional_get d ''balances'') ''perp_now'') 2)
      \<and> goes_through (num ops (optional_get (optional_get d ''balances'') ''portfolio_now'') 2))"

definition window_card :: "'n numops \<Rightarrow> 'n jsval \<Rightarrow> bool" where
  "window_card ops d =
     (ts_goes_through ops (optional_get (optional_get d ''window'') ''startMs'')
      \<and> ts_goes_through ops (optional_get (optional_get d ''window'') ''endMs'')
      \<and> goes_through (num ops (optional_get (optional_get d ''adjustments'') ''deposits'') 2)
      \<and> goes_through (num ops (optional_get (optional_get d ''adjustments'') ''withdrawals'') 2)
      \<and> goes_through (num ops (optional_get (optional_get d ''adjustments'') ''net_cashflow'') 2))"

text \<open>The whole of \<^verbatim>\<open>{data && (...)}\<close> for a truthy \<^verbatim>\<open>data\<close>.\<close>

definition data_goes_through :: "'n numops \<Rightarrow> 'n dashboard \<Rightarrow> bool" where
  "data_goes_through ops st =
     (summary_cards ops (data st)
      \<and> window_card ops (data st)
      \<and> (if includePositions st then table (position_row ops) (optional_get (data st) ''positions'') else True)
      \<and> (if includeClosed st then table (closed_row ops) (optional_get (data st) ''closed'') else True))"

text \<open>
  What the view shows: nothing when rendering has thrown, and otherwise its blocks in
  document order. The summary cards and the tables stand under \<^verbatim>\<open>{data && (...)}\<close>, which
  is the text of \<^verbatim>\<open>data\<close> itself when that is a falsy number; the CSV controls stand
  under \<^verbatim>\<open>{includeClosed && (... {includePositions && ...})}\<close>.
\<close>

datatype block =
    ShareButton
  | ChangeAddressLink
  | BaseUrlInput
  | PeriodSelect "string list"
  | PositionsSwitch
  | ClosedSwitch
  | FetchButton bool
  | ClosedCsvButton
  | PositionsCsvButton
  | ErrorBanner string
  | FalsyNumberText
  | SummaryCards
  | WindowCard
  | PositionsTable
  | ClosedTable
  | FetchPrompt

datatype view = Crashed | Shown "block list"

fun blocks :: "view \<Rightarrow> block list" where
  "blocks Crashed = []"
| "blocks (Shown bs) = bs"

definition render :: "'n numops \<Rightarrow> 'n dashboard \<Rightarrow> view" where
  "render ops st =
     (if truthy ops (data st) \<and> \<not> data_goes_through ops st then Crashed
      else Shown
        ([ShareButton, ChangeAddressLink, BaseUrlInput, PeriodSelect BUILT_IN_PERIODS,
          PositionsSwitch, ClosedSwitch, FetchButton (loading st)]
         @ (if includeClosed st
            then [ClosedCsvButton] @ (if includePositions st then [PositionsCsvButton] else [])
            else [])
         @ (if error st \<noteq> [] then [ErrorBanner (error st)] else [])
         @ (if truthy ops (data st)
            then [SummaryCards, WindowCard]
                 @ (if includePositions st then [PositionsTable] else [])
                 @ (if includeClosed st then [ClosedTable] else [])
            else (case data st of Num n \<Rightarrow> [FalsyNumberText] | _ \<Rightarrow> []))
         @ (if \<not> truthy ops (data st) \<and> \<not> loading st \<and> error st = [] then [FetchPrompt] else [])))"

subsection \<open>An instance of the number primitives\<close>

text \<open>
  To run the definitions on concrete inputs: numbers with four decimal places, the
  integer \<open>x\<close> standing for \<open>x / 10000\<close>. Multiplication by 100 is exact there, and
  \<open>fx_toFixed\<close> rounds the magnitude half up, as \<^verbatim>\<open>toFixed\<close> does.
\<close>

definition fx_toFixed :: "int \<Rightarrow> nat \<Rightarrow> string" where
  "fx_toFixed x d =
     (let n = (nat \<bar>x\<bar> * 10 ^ d * 2 + 10000) div 20000;
          ds = dec n;
          ds' = replicate (Suc d - length ds) CHR ''0'' @ ds;
          body = (if d = 0 then ds'
                  else take (length ds' - d) ds' @ ''.'' @ drop (length ds' - d) ds')
      in (if x < 0 then ''-'' else []) @ body)"

definition fx_parse :: "string \<Rightarrow> int number" where
  "fx_parse s =
     (if s = [] then Finite 0
      else
        let neg = (take 1 s = ''-'');
            r = (if neg then drop 1 s else s);
            ip = takeWhile (\<lambda>c. c \<noteq> CHR ''.'') r;
            fp = drop 1 (dropWhile (\<lambda>c. c \<noteq> CHR ''.'') r)
        in if ip = [] \<or> 4 < length fp then NaN
           else case (digits_nat ip 0, digits_nat (fp @ replicate (4 - length fp) CHR ''0'') 0) of
                  (Some i, Some f) \<Rightarrow> Finite ((if neg then - 1 else 1) * int (i * 10000 + f))
                | _ \<Rightarrow> NaN)"

definition sample_ops :: "int numops" where
  "sample_ops =
     \<lparr> zero = 0, one = 10000, is_zero = (\<lambda>x. x = 0),
       abs_le_one = (\<lambda>x. \<bar>x\<bar> \<le> 10000), times100 = (\<lambda>x. Finite (x * 100)),
       toFixed = fx_toFixed, toLocaleString = fx_toFixed,
       numberToString = (\<lambda>x. fx_toFixed x 4), stringToNumber = fx_parse \<rparr>"

text \<open>
  Two networks to run \<^verbatim>\<open>run\<close> on: one that answers the request for the URL \<open>u\<close>
  after \<open>t\<close> milliseconds with the reply \<open>r\<close> and nothing else, and one that never
  answers.
\<close>

definition silent :: "'n exchange" where
  "silent = \<lparr> settles_at = None, reply = NetworkFailure [], abort_message = ''The operation was aborted.'' \<rparr>"

definition answering :: "string \<Rightarrow> nat \<Rightarrow> 'n reply \<Rightarrow> string \<Rightarrow> 'n exchange" where
  "answering u t r = (\<lambda>u'. if u' = u then silent\<lparr>settles_at := Some t, reply := r\<rparr> else silent)"

text \<open>A Dashboard just mounted for the address \<^verbatim>\<open>0xABCD\<close>, and the URL it requests.\<close>

definition sample_state :: "int dashboard" where
  "sample_state = Dashboard_initial Map.empty ''0xABCD'' [(''base'', ''https://example.test/'')]"

definition sample_request :: string where
  "sample_request =
     ''https://example.test/pnlClean?account=0xABCD&period=week&_ts=1700000000&positions=1&closed=1''"

text \<open>A response that \<^verbatim>\<open>run\<close> accepts, with one open position and no closed trade.\<close>

definition sample_data :: "int jsval" where
  "sample_data =
     Obj [(''ok'', Bool True), (''period'', Str ''week''), (''perp_pnl'', Num (Finite 125000)),
          (''roi'', Obj [(''trading_pct'', Num (Finite 500))]),
          (''positions'',
             Arr [Obj [(''coin'', Str ''BTC''), (''side'', Str ''long''), (''size'', Num (Finite 5000))]]),
          (''closed'', Arr [])]"

section \<open>Properties\<close>

subsection \<open>Evaluating decimal numerals\<close>

lemma dec_lt10: "n < 10 \<Longrightarrow> dec n = [digit_char n]"
  by (subst dec.simps) simp

lemma dec_ge10: "10 \<le> n \<Longrightarrow> dec n = dec (n div 10) @ [digit_char (n mod 10)]"
  by (subst dec.simps) simp

lemmas eval_dec = dec_lt10 dec_ge10 digit_char_def

lemmas eval_sample = sample_ops_def fx_toFixed_def fx_parse_def Let_def eval_dec

lemma digits_nat_append:
  "digits_nat (xs @ ys) acc = (case digits_nat xs acc of None \<Rightarrow> None | Some a \<Rightarrow> digits_nat ys a)"
  by (induction xs arbitrary: acc) auto

lemma digits_nat_digit: "d < 10 \<Longrightarrow> digits_nat [digit_char d] acc = Some (acc * 10 + d)"
proof -
  assume "d < 10"
  then have "d \<in> {0, 1, 2, 3, 4, 5, 6, 7, 8, 9}" by auto
  then show ?thesis by (auto simp add: digit_char_def)
qed

lemma digits_nat_dec: "digits_nat (dec n) 0 = Some n"
proof (induction n rule: dec.induct)
  case (1 n)
  show ?case
  proof (cases "n < 10")
    case True
    then show ?thesis by (simp add: dec_lt10 digits_nat_digit del: digits_nat.simps)
  next
    case False
    then have "digits_nat (dec (n div 10)) 0 = Some (n div 10)" using 1 by simp
    with False show ?thesis
      by (simp add: dec_ge10 digits_nat_append digits_nat_digit del: digits_nat.simps)
  qed
qed

lemma sample_url:
  "request_url sample_state 1700000000123
     = ''https://example.test/pnlClean?account=0xABCD&period=week&_ts=1700000000&positions=1&closed=1''"
  by (simp add: sample_state_def request_url_def Dashboard_initial_def or_else_def qs_get_def Let_def
      strip_slash_def qs_toString_def form_encode_def alnum_def eval_dec)

lemma fetch_sample:
  "t < 15000 \<Longrightarrow>
   fetchJson (answering sample_request t (Response 200 (Inr v))) (request_url sample_state 1700000000123) 15000
     = Inr v"
  by (simp add: sample_url sample_request_def fetchJson_def answering_def silent_def res_ok_def)

lemma error_String_nonempty: "error_String e \<noteq> []"
  by (cases e) (simp_all add: error_String_def)

subsection \<open>Formatting\<close>

text \<open>
  Claim C8. Percent formatting normalises both input conventions to the same display:
  for a finite number \<open>v\<close> with \<open>|v| \<le> 1\<close> whose product \<open>v * 100\<close> is a finite number
  \<open>w\<close> with \<open>|w| > 1\<close>, \<open>pct v\<close> and \<open>pct (v * 100)\<close> are the same string, namely
  \<open>w.toFixed(2)\<close> followed by a percent sign.
\<close>

theorem pct_normalizes:
  assumes "abs_le_one ops x" and "times100 ops x = Finite w" and "\<not> abs_le_one ops w"
  shows "pct ops (Num (Finite x)) = Inr (toFixed ops w 2 @ ''%'')
       \<and> pct ops (Num (number_times100 ops (Finite x))) = pct ops (Num (Finite x))"
  using assms by (simp add: pct_def)

theorem pct_normalizes_witness:
  "abs_le_one sample_ops 5000 \<and> times100 sample_ops 5000 = Finite 500000
   \<and> \<not> abs_le_one sample_ops 500000
   \<and> pct sample_ops (Num (Finite 5000)) = Inr ''50.00%''
   \<and> pct sample_ops (Num (Finite 500000)) = Inr ''50.00%''"
proof -
  have h1: "abs_le_one sample_ops 5000" by (simp add: sample_ops_def)
  have h2: "times100 sample_ops 5000 = Finite 500000" by (simp add: sample_ops_def)
  have h3: "\<not> abs_le_one sample_ops 500000" by (simp add: sample_ops_def)
  have v: "pct sample_ops (Num (Finite 5000)) = Inr ''50.00%''"
    by (simp add: pct_def eval_sample)
  from pct_normalizes [OF h1 h2 h3] h1 h2 h3 v show ?thesis by simp
qed

text \<open>
  Claim C9. For an input that is \<^verbatim>\<open>null\<close> or \<^verbatim>\<open>undefined\<close>, or whose numeric coercion
  is not finite (\<open>NaN\<close>, an infinity), \<open>num v d\<close> returns the empty string: not
  \<^verbatim>\<open>"NaN"\<close>, not \<^verbatim>\<open>"0"\<close>, and no error.
\<close>

theorem num_empty_on_missing_or_nonfinite:
  assumes "eq_null v \<or> (\<exists>n. ToNumber ops v = Inr n \<and> \<not> isFinite n)"
  shows "num ops v d = Inr []"
proof (cases "eq_null v")
  case True
  then show ?thesis by (simp add: num_def)
next
  case False
  with assms obtain n where n: "ToNumber ops v = Inr n" "\<not> isFinite n" by blast
  from n(2) show ?thesis using False n(1) by (cases n) (simp_all add: num_def)
qed

theorem num_empty_on_missing_or_nonfinite_witness:
  "num sample_ops Undefined 2 = Inr [] \<and> num sample_ops Null 2 = Inr []
   \<and> num sample_ops (Num NaN) 2 = Inr [] \<and> num sample_ops (Num PosInfinity) 4 = Inr []
   \<and> num sample_ops (Str ''n/a'') 2 = Inr []"
proof -
  have s: "ToNumber sample_ops (Str ''n/a'') = Inr NaN" by (simp add: eval_sample)
  show ?thesis
    using num_empty_on_missing_or_nonfinite [of Undefined sample_ops 2]
      num_empty_on_missing_or_nonfinite [of Null sample_ops 2]
      num_empty_on_missing_or_nonfinite [of "Num NaN" sample_ops 2]
      num_empty_on_missing_or_nonfinite [of "Num PosInfinity" sample_ops 4]
      num_empty_on_missing_or_nonfinite [of "Str ''n/a''" sample_ops 2] s
    by simp
qed

subsection \<open>Dashboard: what is shown\<close>

lemmas eval_render = render_def data_goes_through_def summary_cards_def window_card_def table_def
  position_row_def closed_row_def optional_get_def js_or_def nullish_or_def goes_through_def
  ts_goes_through_def num_def pct_def

lemma run_sample_data:
  "run sample_ops (answering sample_request 120 (Response 200 (Inr sample_data))) 1700000000123 sample_state
     = sample_state\<lparr>data := sample_data\<rparr>"
proof -
  have f: "fetchJson (answering sample_request 120 (Response 200 (Inr sample_data)))
             (request_url sample_state 1700000000123) 15000 = Inr sample_data"
    by (simp add: fetch_sample)
  have g: "get_prop sample_data ''ok'' = Inr (Bool True)" by (simp add: sample_data_def)
  show ?thesis
    unfolding run_def run_try_def f Let_def
    by (simp add: g) (simp add: sample_state_def Dashboard_initial_def)
qed

lemma sample_data_goes_through:
  "data_goes_through sample_ops (sample_state\<lparr>data := sample_data\<rparr>)
   \<and> data_goes_through sample_ops (sample_state\<lparr>data := sample_data, includeClosed := False\<rparr>)"
  by (simp add: eval_render sample_state_def Dashboard_initial_def sample_data_def sample_ops_def)

text \<open>
  Claim C10. In every state in which the Dashboard is rendered, the Positions CSV
  control is shown exactly when the closed-trades toggle and the positions toggle are
  both on; where rendering throws, nothing is shown. With the closed-trades toggle off
  the control is not shown, while the positions switch is shown whenever the view is
  rendered, and the positions table whenever, in addition, there is data and the
  positions toggle is on.
\<close>

theorem positions_csv_needs_both_toggles:
  "(PositionsCsvButton \<in> set (blocks (render ops st)))
     = (includeClosed st \<and> includePositions st \<and> render ops st \<noteq> Crashed)
   \<and> PositionsCsvButton \<notin> set (blocks (render ops (st\<lparr>includeClosed := False\<rparr>)))
   \<and> (PositionsSwitch \<in> set (blocks (render ops (st\<lparr>includeClosed := False\<rparr>))))
       = (render ops (st\<lparr>includeClosed := False\<rparr>) \<noteq> Crashed)
   \<and> (PositionsTable \<in> set (blocks (render ops (st\<lparr>includeClosed := False\<rparr>))))
       = (includePositions st \<and> truthy ops (data st)
          \<and> render ops (st\<lparr>includeClosed := False\<rparr>) \<noteq> Crashed)"
  by (auto simp add: render_def split: jsval.splits)

theorem positions_csv_needs_both_toggles_witness:
  "render sample_ops
     (run sample_ops (answering sample_request 120 (Response 200 (Inr sample_data))) 1700000000123 sample_state)
     \<noteq> Crashed
   \<and> PositionsCsvButton \<in> set (blocks (render sample_ops
         (run sample_ops (answering sample_request 120 (Response 200 (Inr sample_data))) 1700000000123
            sample_state)))
   \<and> PositionsCsvButton \<notin> set (blocks (render sample_ops
         ((run sample_ops (answering sample_request 120 (Response 200 (Inr sample_data))) 1700000000123
            sample_state)\<lparr>includeClosed := False\<rparr>)))
   \<and> PositionsTable \<in> set (blocks (render sample_ops
         ((run sample_ops (answering sample_request 120 (Response 200 (Inr sample_data))) 1700000000123
            sample_state)\<lparr>includeClosed := False\<rparr>)))
   \<and> PositionsCsvButton \<notin> set (blocks (render sample_ops
         (sample_state\<lparr>data := Obj [(''ok'', Bool True), (''positions'', Num (Finite 50000))]\<rparr>)))"
proof -
  have r: "render sample_ops (sample_state\<lparr>data := sample_data\<rparr>) \<noteq> Crashed"
    "render sample_ops (sample_state\<lparr>data := sample_data, includeClosed := False\<rparr>) \<noteq> Crashed"
    using sample_data_goes_through by (simp_all add: render_def)
  have t: "truthy sample_ops (data (sample_state\<lparr>data := sample_data\<rparr>))"
    by (simp add: sample_data_def)
  have i: "includeClosed (sample_state\<lparr>data := sample_data\<rparr>)"
    "includePositions (sample_state\<lparr>data := sample_data\<rparr>)"
    by (simp_all add: sample_state_def Dashboard_initial_def)
  have c: "render sample_ops
      (sample_state\<lparr>data := Obj [(''ok'', Bool True), (''positions'', Num (Finite 50000))]\<rparr>) = Crashed"
    by (simp add: eval_render sample_state_def Dashboard_initial_def sample_ops_def)
  show ?thesis
    using positions_csv_needs_both_toggles [of sample_ops "sample_state\<lparr>data := sample_data\<rparr>"]
      positions_csv_needs_both_toggles [of sample_ops
        "sample_state\<lparr>data := Obj [(''ok'', Bool True), (''positions'', Num (Finite 50000))]\<rparr>"]
      r t i c
    by (simp add: run_sample_data)
qed

subsection \<open>Dashboard: the initial state\<close>

text \<open>
  Claim C3, as stated, fails: the period taken from the query string is not checked
  against the built-in periods, and no persisted period is ever read. A query string
  with \<^verbatim>\<open>period=yearly\<close> selects \<^verbatim>\<open>yearly\<close>; a local storage that holds a period
  changes nothing.
\<close>

theorem initial_period_counterexample:
  "period (Dashboard_initial Map.empty ''0xABCD'' [(''period'', ''yearly'')] :: int dashboard) = ''yearly''
   \<and> ''yearly'' \<notin> set BUILT_IN_PERIODS
   \<and> period (Dashboard_initial (Map.empty(''ps_period'' \<mapsto> ''month'', ''period'' \<mapsto> ''month''))
         ''0xABCD'' [] :: int dashboard) = ''week''"
  by (simp add: Dashboard_initial_def or_else_def qs_get_def BUILT_IN_PERIODS_def)

text \<open>
  Claim C3, amended. On mount the base URL is the non-empty \<^verbatim>\<open>base\<close> of the query
  string, else the non-empty value stored under \<^verbatim>\<open>ps_base\<close>, else the built-in default.
  The period is the non-empty \<^verbatim>\<open>period\<close> of the query string, whatever it is, else
  \<^verbatim>\<open>week\<close>, whatever the local storage holds; \<^verbatim>\<open>week\<close> is one of the eight built-in
  periods.
\<close>

theorem initial_state_precedence:
  fixes ls :: "string \<rightharpoonup> string" and a :: string and qs :: URLSearchParams
  defines "st \<equiv> (Dashboard_initial ls a qs :: 'n dashboard)"
  shows "(qs_get qs ''base'' = Some b \<and> b \<noteq> [] \<longrightarrow> baseUrl st = b)
   \<and> (qs_get qs ''base'' \<in> {None, Some []} \<and> ls ''ps_base'' = Some p \<and> p \<noteq> [] \<longrightarrow> baseUrl st = p)
   \<and> (qs_get qs ''base'' \<in> {None, Some []} \<and> ls ''ps_base'' \<in> {None, Some []}
        \<longrightarrow> baseUrl st = DEFAULT_BASE)
   \<and> (qs_get qs ''period'' = Some q \<and> q \<noteq> [] \<longrightarrow> period st = q)
   \<and> (qs_get qs ''period'' \<in> {None, Some []} \<longrightarrow> period st = ''week'')
   \<and> ''week'' \<in> set BUILT_IN_PERIODS
   \<and> distinct BUILT_IN_PERIODS \<and> length BUILT_IN_PERIODS = 8"
  by (auto simp add: st_def Dashboard_initial_def or_else_def BUILT_IN_PERIODS_def)

theorem initial_state_precedence_witness:
  "baseUrl (Dashboard_initial Map.empty ''0xABCD'' [(''base'', ''https://example.test'')] :: int dashboard)
     = ''https://example.test''
   \<and> baseUrl (Dashboard_initial (Map.empty(''ps_base'' \<mapsto> ''https://saved.test'')) ''0xABCD''
         [(''base'', [])] :: int dashboard)
     = ''https://saved.test''
   \<and> baseUrl (Dashboard_initial Map.empty ''0xABCD'' [] :: int dashboard) = DEFAULT_BASE
   \<and> period (Dashboard_initial Map.empty ''0xABCD'' [(''period'', ''month'')] :: int dashboard) = ''month''
   \<and> period (Dashboard_initial Map.empty ''0xABCD'' [] :: int dashboard) = ''week''"
  using
    initial_state_precedence [where 'n = int and ls = Map.empty and a = "''0xABCD''"
      and qs = "[(''base'', ''https://example.test'')]" and b = "''https://example.test''"]
    initial_state_precedence [where 'n = int and ls = "Map.empty(''ps_base'' \<mapsto> ''https://saved.test'')"
      and a = "''0xABCD''" and qs = "[(''base'', [])]" and p = "''https://saved.test''"]
    initial_state_precedence [where 'n = int and ls = Map.empty and a = "''0xABCD''" and qs = "[]"]
    initial_state_precedence [where 'n = int and ls = Map.empty and a = "''0xABCD''"
      and qs = "[(''period'', ''month'')]" and q = "''month''"]
  by (simp add: qs_get_def)

subsection \<open>Remote data client\<close>

text \<open>
  Claim C5. \<^verbatim>\<open>fetchJson\<close> succeeds only on a response that arrives before the timeout
  with a status from 200 to 299 and a body that parses, and then returns the parsed
  body. On a response with any other status it fails with the error whose message is
  \<^verbatim>\<open>HTTP\<close>, a space and the decimal numeral of the status; on a status in the success
  range it gives what parsing the body gives, so a body that is not JSON fails with the
  parse error.
\<close>

theorem fetchJson_status:
  fixes net :: "string \<Rightarrow> 'n exchange"
  shows "((fetchJson net u timeoutMs = Inr v)
       = (\<exists>t status. settles_at (net u) = Some t \<and> t < timeoutMs
            \<and> reply (net u) = Response status (Inr v) \<and> 200 \<le> status \<and> status \<le> 299))
    \<and> (settles_at (net u) = Some t \<and> t < timeoutMs \<and> reply (net u) = Response status body
         \<longrightarrow> fetchJson net u timeoutMs
             = (if 200 \<le> status \<and> status \<le> 299 then body else Inl (Error (''HTTP '' @ dec status)))
           \<and> digits_nat (dec status) 0 = Some status)"
  by (auto simp add: fetchJson_def Let_def res_ok_def digits_nat_dec split: option.splits reply.splits)

theorem fetchJson_status_witness:
  "fetchJson (answering ''https://example.test/pnlClean'' 120 (Response 404 (Inr Null)) :: string \<Rightarrow> int exchange)
      ''https://example.test/pnlClean'' 15000 = Inl (Error ''HTTP 404'')
   \<and> fetchJson (answering ''https://example.test/pnlClean'' 120 (Response 200 (Inr (Obj [(''ok'', Bool True)]))) :: string \<Rightarrow> int exchange)
      ''https://example.test/pnlClean'' 15000 = Inr (Obj [(''ok'', Bool True)])
   \<and> fetchJson (answering ''https://example.test/pnlClean'' 120 (Response 200 (Inl (SyntaxError ''Unexpected token <''))) :: string \<Rightarrow> int exchange)
      ''https://example.test/pnlClean'' 15000 = Inl (SyntaxError ''Unexpected token <'')"
  using
    fetchJson_status [where 'n = int and u = "''https://example.test/pnlClean''" and timeoutMs = 15000
      and t = 120 and status = 404 and body = "Inr Null"
      and net = "answering ''https://example.test/pnlClean'' 120 (Response 404 (Inr Null))"]
    fetchJson_status [where 'n = int and u = "''https://example.test/pnlClean''" and timeoutMs = 15000
      and t = 120 and status = 200 and body = "Inr (Obj [(''ok'', Bool True)])"
      and net = "answering ''https://example.test/pnlClean'' 120 (Response 200 (Inr (Obj [(''ok'', Bool True)])))"]
    fetchJson_status [where 'n = int and u = "''https://example.test/pnlClean''" and timeoutMs = 15000
      and t = 120 and status = 200 and body = "Inl (SyntaxError ''Unexpected token <'')"
      and net = "answering ''https://example.test/pnlClean'' 120 (Response 200 (Inl (SyntaxError ''Unexpected token <'')))"]
  by (simp add: answering_def silent_def eval_dec)

subsection \<open>Dashboard: the fetch operation\<close>

text \<open>
  Claim C2, as stated, fails on a response whose \<^verbatim>\<open>error\<close> field is present and empty:
  the text shown is the fallback \<^verbatim>\<open>ok=false\<close>, not the (empty) field.
\<close>

theorem run_empty_error_field_counterexample:
  "error (run sample_ops
            (answering sample_request 120
               (Response 200 (Inr (Obj [(''ok'', Bool False), (''error'', Str [])]))))
            1700000000123 sample_state) = ''ok=false''"
  by (simp add: run_def run_try_def fetch_sample)

text \<open>
  Claim C2, amended. When \<^verbatim>\<open>fetchJson\<close> has returned an object whose \<^verbatim>\<open>ok\<close> field is
  \<^verbatim>\<open>false\<close>, so that neither the network nor the HTTP status has failed, \<^verbatim>\<open>run\<close> sets
  the error text to the \<^verbatim>\<open>error\<close> field when that is a non-empty string, and to
  \<^verbatim>\<open>ok=false\<close> when the field is absent or the empty string. The data stays \<^verbatim>\<open>null\<close>,
  the loading flag is cleared, and the view is rendered with neither the summary cards
  nor the positions and closed-trades tables in it.
\<close>

theorem run_application_failure:
  assumes "fetchJson net (request_url st now) 15000 = Inr (Obj kvs)"
      and "map_of kvs ''ok'' = Some (Bool False)"
  shows "(map_of kvs ''error'' = Some (Str m) \<and> m \<noteq> [] \<longrightarrow> error (run ops net now st) = m)
       \<and> (map_of kvs ''error'' \<in> {None, Some (Str [])} \<longrightarrow> error (run ops net now st) = ''ok=false'')
       \<and> data (run ops net now st) = Null
       \<and> loading (run ops net now st) = False
       \<and> render ops (run ops net now st) \<noteq> Crashed
       \<and> SummaryCards \<notin> set (blocks (render ops (run ops net now st)))
       \<and> PositionsTable \<notin> set (blocks (render ops (run ops net now st)))
       \<and> ClosedTable \<notin> set (blocks (render ops (run ops net now st)))"
  using assms
  by (auto simp add: run_def run_try_def Let_def render_def split: sum.splits)

theorem run_application_failure_witness:
  "error (run sample_ops
            (answering sample_request 120
               (Response 200 (Inr (Obj [(''ok'', Bool False), (''error'', Str ''bad account'')]))))
            1700000000123 sample_state) = ''bad account''
   \<and> error (run sample_ops
            (answering sample_request 120 (Response 200 (Inr (Obj [(''ok'', Bool False)]))))
            1700000000123 sample_state) = ''ok=false''
   \<and> data (run sample_ops
            (answering sample_request 120
               (Response 200 (Inr (Obj [(''ok'', Bool False), (''error'', Str ''bad account'')]))))
            1700000000123 sample_state) = Null
   \<and> render sample_ops (run sample_ops
            (answering sample_request 120
               (Response 200 (Inr (Obj [(''ok'', Bool False), (''error'', Str ''bad account'')]))))
            1700000000123 sample_state) \<noteq> Crashed
   \<and> PositionsTable \<notin> set (blocks (render sample_ops (run sample_ops
            (answering sample_request 120
               (Response 200 (Inr (Obj [(''ok'', Bool False), (''error'', Str ''bad account'')]))))
            1700000000123 sample_state)))
   \<and> ClosedTable \<notin> set (blocks (render sample_ops (run sample_ops
            (answering sample_request 120
               (Response 200 (Inr (Obj [(''ok'', Bool False), (''error'', Str ''bad account'')]))))
            1700000000123 sample_state)))"
  using
    run_application_failure [where ops = sample_ops and now = 1700000000123 and st = sample_state
      and kvs = "[(''ok'', Bool False), (''error'', Str ''bad account'')]" and m = "''bad account''"
      and net = "answering sample_request 120
               (Response 200 (Inr (Obj [(''ok'', Bool False), (''error'', Str ''bad account'')])))",
      OF fetch_sample]
    run_application_failure [where ops = sample_ops and now = 1700000000123 and st = sample_state
      and kvs = "[(''ok'', Bool False)]"
      and net = "answering sample_request 120 (Response 200 (Inr (Obj [(''ok'', Bool False)])))",
      OF fetch_sample]
  by simp

lemma run_try_ok_false:
  assumes "fetchJson net (request_url st now) 15000 = Inr json"
      and "\<forall>okv. get_prop json ''ok'' = Inr okv \<longrightarrow> \<not> truthy ops okv"
  shows "isl (run_try ops net now st)"
  using assms by (auto simp add: run_try_def split: sum.splits)

lemma run_after_failure:
  "isl (run_try ops net now st) \<Longrightarrow>
   error (run ops net now st) \<noteq> [] \<and> data (run ops net now st) = Null"
  by (auto simp add: run_def Let_def error_String_nonempty split: sum.splits)

text \<open>
  Claim C6. Whatever the network does, \<^verbatim>\<open>run\<close> completes with the loading flag
  cleared. On each failure a non-empty error text is stored and the data stays \<^verbatim>\<open>null\<close>:
  on a request that has not settled within 15000 ms the text is that of the
  \<^verbatim>\<open>AbortError\<close>; on a network failure it is that of the rejection; on a response with a
  status outside the success range it is \<^verbatim>\<open>HTTP\<close> and the status; on a body that does
  not parse it is that of the parse error; and on a parsed body whose \<^verbatim>\<open>ok\<close> is not
  truthy, or cannot be read, \<^verbatim>\<open>run\<close> itself throws and the text of what it throws is
  stored. On a parsed body whose \<^verbatim>\<open>ok\<close> is truthy the data is that body and the error
  text is empty. No case is left: the \<^verbatim>\<open>try\<close> block either fails, with an error text
  stored, or yields the data.
\<close>

theorem run_clears_loading:
  fixes net :: "string \<Rightarrow> 'n exchange" and st :: "'n dashboard" and now :: nat
    and ops :: "'n numops"
  defines "x \<equiv> net (request_url st now)" and "st' \<equiv> run ops net now st"
  shows "loading st' = False
   \<and> (case run_try ops net now st of
         Inl e \<Rightarrow> error st' \<noteq> [] \<and> data st' = Null
       | Inr json \<Rightarrow> data st' = json \<and> error st' = [])
   \<and> ((case settles_at x of None \<Rightarrow> True | Some t \<Rightarrow> 15000 \<le> t)
        \<longrightarrow> run_try ops net now st = Inl (AbortError (abort_message x))
            \<and> error st' = (if abort_message x \<noteq> [] then abort_message x else ''AbortError'')
            \<and> data st' = Null)
   \<and> (settles_at x = Some t \<and> t < 15000 \<and> reply x = NetworkFailure m
        \<longrightarrow> error st' = (if m \<noteq> [] then m else ''TypeError'') \<and> data st' = Null)
   \<and> (settles_at x = Some t \<and> t < 15000 \<and> reply x = Response status body \<and> \<not> res_ok status
        \<longrightarrow> error st' = ''HTTP '' @ dec status \<and> data st' = Null)
   \<and> (settles_at x = Some t \<and> t < 15000 \<and> reply x = Response status (Inl e) \<and> res_ok status
        \<longrightarrow> error st' = (if message e \<noteq> [] then message e else error_String e)
            \<and> error st' \<noteq> [] \<and> data st' = Null)
   \<and> (settles_at x = Some t \<and> t < 15000 \<and> reply x = Response status (Inr json) \<and> res_ok status
        \<and> (\<forall>okv. get_prop json ''ok'' = Inr okv \<longrightarrow> \<not> truthy ops okv)
        \<longrightarrow> error st' \<noteq> [] \<and> data st' = Null)
   \<and> (settles_at x = Some t \<and> t < 15000 \<and> reply x = Response status (Inr json) \<and> res_ok status
        \<and> get_prop json ''ok'' = Inr okv \<and> truthy ops okv
        \<longrightarrow> data st' = json \<and> error st' = [])"
proof -
  have a: "loading st' = False" by (simp add: st'_def run_def Let_def split: sum.splits)
  have b: "(case run_try ops net now st of
         Inl e \<Rightarrow> error st' \<noteq> [] \<and> data st' = Null
       | Inr json \<Rightarrow> data st' = json \<and> error st' = [])"
    by (auto simp add: st'_def run_def Let_def error_String_nonempty split: sum.splits)
  have c: "(case settles_at x of None \<Rightarrow> True | Some t \<Rightarrow> 15000 \<le> t)
        \<longrightarrow> run_try ops net now st = Inl (AbortError (abort_message x))
            \<and> error st' = (if abort_message x \<noteq> [] then abort_message x else ''AbortError'')
            \<and> data st' = Null"
    by (auto simp add: st'_def x_def run_def run_try_def Let_def fetchJson_def error_String_def
        split: option.splits)
  have d: "settles_at x = Some t \<and> t < 15000 \<and> reply x = NetworkFailure m
        \<longrightarrow> error st' = (if m \<noteq> [] then m else ''TypeError'') \<and> data st' = Null"
    by (auto simp add: st'_def x_def run_def run_try_def Let_def fetchJson_def error_String_def)
  have e: "settles_at x = Some t \<and> t < 15000 \<and> reply x = Response status body \<and> \<not> res_ok status
        \<longrightarrow> error st' = ''HTTP '' @ dec status \<and> data st' = Null"
    by (auto simp add: st'_def x_def run_def run_try_def Let_def fetchJson_def)
  have f: "settles_at x = Some t \<and> t < 15000 \<and> reply x = Response status (Inl e) \<and> res_ok status
        \<longrightarrow> error st' = (if message e \<noteq> [] then message e else error_String e)
            \<and> error st' \<noteq> [] \<and> data st' = Null"
    by (auto simp add: st'_def x_def run_def run_try_def Let_def fetchJson_def error_String_nonempty)
  have g: "settles_at x = Some t \<and> t < 15000 \<and> reply x = Response status (Inr json) \<and> res_ok status
        \<and> (\<forall>okv. get_prop json ''ok'' = Inr okv \<longrightarrow> \<not> truthy ops okv)
        \<longrightarrow> error st' \<noteq> [] \<and> data st' = Null"
  proof
    assume h: "settles_at x = Some t \<and> t < 15000 \<and> reply x = Response status (Inr json) \<and> res_ok status
        \<and> (\<forall>okv. get_prop json ''ok'' = Inr okv \<longrightarrow> \<not> truthy ops okv)"
    then have "fetchJson net (request_url st now) 15000 = Inr json"
      by (simp add: fetchJson_def x_def Let_def)
    with h have "isl (run_try ops net now st)" by (intro run_try_ok_false) auto
    then show "error st' \<noteq> [] \<and> data st' = Null" unfolding st'_def by (rule run_after_failure)
  qed
  have h: "settles_at x = Some t \<and> t < 15000 \<and> reply x = Response status (Inr json) \<and> res_ok status
        \<and> get_prop json ''ok'' = Inr okv \<and> truthy ops okv
        \<longrightarrow> data st' = json \<and> error st' = []"
    by (auto simp add: st'_def x_def run_def run_try_def Let_def fetchJson_def)
  from a b c d e f g h show ?thesis by blast
qed

theorem run_clears_loading_witness:
  "loading (run sample_ops (\<lambda>u. silent) 1700000000123 sample_state) = False
   \<and> error (run sample_ops (\<lambda>u. silent) 1700000000123 sample_state) = ''The operation was aborted.''
   \<and> error (run sample_ops (answering sample_request 120 (NetworkFailure ''Failed to fetch''))
         1700000000123 sample_state) = ''Failed to fetch''
   \<and> error (run sample_ops (answering sample_request 120 (Response 503 (Inr Null))) 1700000000123 sample_state)
       = ''HTTP 503''
   \<and> error (run sample_ops (answering sample_request 120 (Response 200 (Inl (SyntaxError ''Unexpected token <''))))
         1700000000123 sample_state) = ''Unexpected token <''
   \<and> error (run sample_ops
         (answering sample_request 120
            (Response 200 (Inr (Obj [(''ok'', Bool False), (''error'', Str ''bad account'')]))))
         1700000000123 sample_state) \<noteq> []
   \<and> loading (run sample_ops
         (answering sample_request 120
            (Response 200 (Inr (Obj [(''ok'', Bool False), (''error'', Str ''bad account'')]))))
         1700000000123 sample_state) = False
   \<and> data (run sample_ops (answering sample_request 120 (Response 200 (Inr sample_data)))
         1700000000123 sample_state) = sample_data
   \<and> error (run sample_ops (answering sample_request 120 (Response 200 (Inr sample_data)))
         1700000000123 sample_state) = []"
  using
    run_clears_loading [where ops = sample_ops and now = 1700000000123 and st = sample_state
      and net = "\<lambda>u. silent"]
    run_clears_loading [where ops = sample_ops and now = 1700000000123 and st = sample_state
      and net = "answering sample_request 120 (NetworkFailure ''Failed to fetch'')" and t = 120
      and m = "''Failed to fetch''"]
    run_clears_loading [where ops = sample_ops and now = 1700000000123 and st = sample_state
      and net = "answering sample_request 120 (Response 503 (Inr Null))" and t = 120
      and status = 503 and body = "Inr Null"]
    run_clears_loading [where ops = sample_ops and now = 1700000000123 and st = sample_state
      and net = "answering sample_request 120 (Response 200 (Inl (SyntaxError ''Unexpected token <'')))"
      and t = 120 and status = 200 and e = "SyntaxError ''Unexpected token <''"]
    run_clears_loading [where ops = sample_ops and now = 1700000000123 and st = sample_state
      and net = "answering sample_request 120
            (Response 200 (Inr (Obj [(''ok'', Bool False), (''error'', Str ''bad account'')])))"
      and t = 120 and status = 200 and json = "Obj [(''ok'', Bool False), (''error'', Str ''bad account'')]"]
    run_clears_loading [where ops = sample_ops and now = 1700000000123 and st = sample_state
      and net = "answering sample_request 120 (Response 200 (Inr sample_data))"
      and t = 120 and status = 200 and json = sample_data and okv = "Bool True"]
  by (simp add: sample_url sample_request_def answering_def silent_def res_ok_def eval_dec sample_data_def)

subsection \<open>Splitting a string, and the segments of a path\<close>

lemma split_none: "c \<notin> set s \<Longrightarrow> split c s = [s]"
proof -
  assume "c \<notin> set s"
  then have d: "dropWhile (\<lambda>x. x \<noteq> c) s = []" by auto
  show ?thesis by (subst split.simps) (simp only: d list.case)
qed

lemma split_first: "c \<notin> set s \<Longrightarrow> split c (s @ c # r) = s # split c r"
proof -
  assume c: "c \<notin> set s"
  then have d: "dropWhile (\<lambda>x. x \<noteq> c) (s @ c # r) = c # r"
    by (auto simp add: dropWhile_append3)
  from c have t: "takeWhile (\<lambda>x. x \<noteq> c) (s @ c # r) = s"
    by (auto simp add: takeWhile_tail)
  show ?thesis by (subst split.simps) (simp only: d t list.case)
qed

lemma split_nonempty: "split c s \<noteq> []"
  by (subst split.simps) (simp split: list.splits)

lemma split_decompose:
  "split c s = takeWhile (\<lambda>x. x \<noteq> c) s #
     (case dropWhile (\<lambda>x. x \<noteq> c) s of [] \<Rightarrow> [] | _ # r \<Rightarrow> split c r)"
proof (cases "dropWhile (\<lambda>x. x \<noteq> c) s")
  case Nil
  then have t: "takeWhile (\<lambda>x. x \<noteq> c) s = s" by (auto simp add: takeWhile_eq_all_conv)
  show ?thesis by (subst split.simps) (simp only: Nil t list.case)
next
  case (Cons a r)
  show ?thesis by (subst split.simps) (simp only: Cons list.case)
qed


lemma segments_Nil: "segments [] = []"
  by (subst segments.simps) simp

lemma segments_slash: "segments (CHR ''/'' # r) = segments r"
  by (subst segments.simps, subst (2) segments.simps) simp

lemma segments_last:
  "x \<noteq> CHR ''/'' \<Longrightarrow> CHR ''/'' \<notin> set w \<Longrightarrow> segments (x # w) = [x # w]"
proof -
  assume x: "x \<noteq> CHR ''/''" and w: "CHR ''/'' \<notin> set w"
  from w have t: "takeWhile (\<lambda>c. c \<noteq> CHR ''/'') w = w" by (auto simp add: takeWhile_eq_all_conv)
  from w have d: "dropWhile (\<lambda>c. c \<noteq> CHR ''/'') w = []" by auto
  from x have h: "dropWhile (\<lambda>c. c = CHR ''/'') (x # w) = x # w" by simp
  show ?thesis by (subst segments.simps) (simp only: h t d list.case segments_Nil)
qed

lemma segments_word:
  "x \<noteq> CHR ''/'' \<Longrightarrow> CHR ''/'' \<notin> set w \<Longrightarrow> segments (x # w @ CHR ''/'' # r) = (x # w) # segments r"
proof -
  assume x: "x \<noteq> CHR ''/''" and w: "CHR ''/'' \<notin> set w"
  from w have t: "takeWhile (\<lambda>c. c \<noteq> CHR ''/'') (w @ CHR ''/'' # r) = w"
    by (auto simp add: takeWhile_tail)
  from w have d: "dropWhile (\<lambda>c. c \<noteq> CHR ''/'') (w @ CHR ''/'' # r) = CHR ''/'' # r"
    by (auto simp add: dropWhile_append3)
  from x have h: "dropWhile (\<lambda>c. c = CHR ''/'') (x # w @ CHR ''/'' # r) = x # w @ CHR ''/'' # r" by simp
  show ?thesis by (subst segments.simps) (simp only: h t d list.case segments_slash)
qed

lemma split_segments: "filter (\<lambda>p. p \<noteq> []) (split CHR ''/'' s) = segments s"
proof (induction "CHR ''/''" s rule: split.induct)
  case (1 s)
  let ?w = "takeWhile (\<lambda>x. x \<noteq> CHR ''/'') s"
  have nw: "CHR ''/'' \<notin> set ?w" by (auto dest: set_takeWhileD)
  show ?case
  proof (cases "dropWhile (\<lambda>x. x \<noteq> CHR ''/'') s")
    case Nil
    then have s: "CHR ''/'' \<notin> set s" by auto
    show ?thesis
    proof (cases s)
      case Nil
      then show ?thesis by (simp add: split_none segments_Nil)
    next
      case (Cons x w)
      with s have "x \<noteq> CHR ''/''" "CHR ''/'' \<notin> set w" by auto
      then have "segments (x # w) = [x # w]" by (rule segments_last)
      with s Cons show ?thesis by (simp add: split_none)
    qed
  next
    case (Cons y r)
    then have y: "y = CHR ''/''" using hd_dropWhile [of "\<lambda>x. x \<noteq> CHR ''/''" s] by auto
    have s: "s = ?w @ CHR ''/'' # r"
      using takeWhile_dropWhile_id [of "\<lambda>x. x \<noteq> CHR ''/''" s] Cons y by simp
    have ih: "filter (\<lambda>p. p \<noteq> []) (split CHR ''/'' r) = segments r"
      using 1 Cons by simp
    have sp: "split CHR ''/'' s = ?w # split CHR ''/'' r"
      using split_first [OF nw, of r] s by simp
    show ?thesis
    proof (cases ?w)
      case Nil
      with s have "s = CHR ''/'' # r" by simp
      with sp Nil ih show ?thesis by (simp add: segments_slash)
    next
      case (Cons x w)
      with nw have "x \<noteq> CHR ''/''" "CHR ''/'' \<notin> set w" by auto
      then have "segments (x # w @ CHR ''/'' # r) = (x # w) # segments r" by (rule segments_word)
      moreover from s Cons have "s = x # w @ CHR ''/'' # r" by simp
      ultimately show ?thesis using sp Cons ih by simp
    qed
  qed
qed

lemma route_of_parts:
  "\<forall>p \<in> set parts. p \<noteq> [] \<Longrightarrow>
   (case parts of
      p0 # p1 # ps \<Rightarrow> if p0 = ''acct'' \<and> p1 \<noteq> [] then Inr (Acct p1 qs) else Inr (Home qs)
    | _ \<Rightarrow> Inr (Home qs))
   = Inr (case parts of
            p0 # p1 # ps \<Rightarrow> if p0 = ''acct'' then Acct p1 qs else Home qs
          | _ \<Rightarrow> Home qs)"
  by (auto split: list.splits)

lemma parseRoute_eq:
  "parseRoute f =
     Inr (case segments (fragment_path f) of
            p0 # p1 # ps \<Rightarrow>
              if p0 = ''acct'' then Acct p1 (new_URLSearchParams (fragment_query f))
              else Home (new_URLSearchParams (fragment_query f))
          | _ \<Rightarrow> Home (new_URLSearchParams (fragment_query f)))"
proof -
  let ?clean = "drop_hash f"
  let ?parts = "filter (\<lambda>p. p \<noteq> []) (split CHR ''/'' (fragment_path f))"
  have q: "(case (case dropWhile (\<lambda>x. x \<noteq> CHR ''?'') ?clean of [] \<Rightarrow> [] | _ # r \<Rightarrow> split CHR ''?'' r) of
             [] \<Rightarrow> [] | q # _ \<Rightarrow> q) = fragment_query f"
  proof (cases "dropWhile (\<lambda>x. x \<noteq> CHR ''?'') ?clean")
    case Nil
    show ?thesis unfolding fragment_query_def by (simp only: Nil list.case drop.simps takeWhile.simps)
  next
    case (Cons y r)
    show ?thesis unfolding fragment_query_def
      by (simp only: Cons list.case split_decompose [of "CHR ''?''" r]) simp
  qed
  have "parseRoute f =
     (case ?parts of
        p0 # p1 # ps \<Rightarrow>
          if p0 = ''acct'' \<and> p1 \<noteq> [] then Inr (Acct p1 (new_URLSearchParams (fragment_query f)))
          else Inr (Home (new_URLSearchParams (fragment_query f)))
      | _ \<Rightarrow> Inr (Home (new_URLSearchParams (fragment_query f))))"
    unfolding parseRoute_def Let_def drop_hash_def [symmetric]
    by (subst split_decompose) (simp only: list.case q fragment_path_def)
  also have "\<dots> =
     Inr (case ?parts of
            p0 # p1 # ps \<Rightarrow>
              if p0 = ''acct'' then Acct p1 (new_URLSearchParams (fragment_query f))
              else Home (new_URLSearchParams (fragment_query f))
          | _ \<Rightarrow> Home (new_URLSearchParams (fragment_query f)))"
    by (rule route_of_parts) simp
  finally show ?thesis by (simp only: split_segments)
qed

lemma takeWhile_sep: "c \<notin> set s \<Longrightarrow> takeWhile (\<lambda>x. x \<noteq> c) (s @ c # r) = s"
  by (auto simp add: takeWhile_tail)

lemma dropWhile_sep: "c \<notin> set s \<Longrightarrow> dropWhile (\<lambda>x. x \<noteq> c) (s @ c # r) = c # r"
  by (auto simp add: dropWhile_append3)

lemma takeWhile_nosep: "c \<notin> set s \<Longrightarrow> takeWhile (\<lambda>x. x \<noteq> c) s = s"
  by (auto simp add: takeWhile_eq_all_conv)

lemma dropWhile_nosep: "c \<notin> set s \<Longrightarrow> dropWhile (\<lambda>x. x \<noteq> c) s = []"
  by auto

lemma new_URLSearchParams_Nil: "new_URLSearchParams [] = []"
  by (simp add: new_URLSearchParams_def split_none)

lemma parseRoute_acct_query:
  assumes "a \<noteq> []" and "CHR ''/'' \<notin> set a" and "CHR ''?'' \<notin> set a"
  shows "parseRoute (''#/acct/'' @ a @ CHR ''?'' # q)
       = Inr (Acct a (new_URLSearchParams (takeWhile (\<lambda>c. c \<noteq> CHR ''?'') q)))"
proof -
  let ?f = "''#/acct/'' @ a @ CHR ''?'' # q"
  have clean: "drop_hash ?f = (''/acct/'' @ a) @ CHR ''?'' # q" by (simp add: drop_hash_def)
  have nq: "CHR ''?'' \<notin> set (''/acct/'' @ a)" using assms(3) by simp
  have path: "fragment_path ?f = ''/acct/'' @ a"
    unfolding fragment_path_def clean by (rule takeWhile_sep [OF nq])
  have query: "fragment_query ?f = takeWhile (\<lambda>c. c \<noteq> CHR ''?'') q"
    unfolding fragment_query_def clean by (simp only: dropWhile_sep [OF nq]) simp
  obtain x w where a: "a = x # w" using assms(1) by (cases a) auto
  with assms(2) have x: "x \<noteq> CHR ''/''" and w: "CHR ''/'' \<notin> set w" by auto
  have "segments (''/acct/'' @ a) = segments (CHR ''a'' # ''cct'' @ CHR ''/'' # a)"
    by (simp add: segments_slash)
  also have "\<dots> = ''acct'' # segments a"
    using segments_word [of "CHR ''a''" "''cct''" a] by simp
  also have "segments a = [a]" unfolding a using x w by (rule segments_last)
  finally have seg: "segments (fragment_path ?f) = [''acct'', a]" using path by simp
  show ?thesis by (subst parseRoute_eq) (simp only: seg query list.case, simp)
qed

lemma parseRoute_acct_plain:
  assumes "a \<noteq> []" and "CHR ''/'' \<notin> set a" and "CHR ''?'' \<notin> set a"
  shows "parseRoute (''#/acct/'' @ a) = Inr (Acct a [])"
proof -
  let ?f = "''#/acct/'' @ a"
  have clean: "drop_hash ?f = ''/acct/'' @ a" by (simp add: drop_hash_def)
  have nq: "CHR ''?'' \<notin> set (''/acct/'' @ a)" using assms(3) by simp
  have path: "fragment_path ?f = ''/acct/'' @ a"
    unfolding fragment_path_def clean by (rule takeWhile_nosep [OF nq])
  have query: "fragment_query ?f = []"
    unfolding fragment_query_def clean by (simp only: dropWhile_nosep [OF nq]) simp
  obtain x w where a: "a = x # w" using assms(1) by (cases a) auto
  with assms(2) have x: "x \<noteq> CHR ''/''" and w: "CHR ''/'' \<notin> set w" by auto
  have "segments (''/acct/'' @ a) = segments (CHR ''a'' # ''cct'' @ CHR ''/'' # a)"
    by (simp add: segments_slash)
  also have "\<dots> = ''acct'' # segments a"
    using segments_word [of "CHR ''a''" "''cct''" a] by simp
  also have "segments a = [a]" unfolding a using x w by (rule segments_last)
  finally have seg: "segments (fragment_path ?f) = [''acct'', a]" using path by simp
  show ?thesis by (subst parseRoute_eq) (simp only: seg query list.case new_URLSearchParams_Nil, simp)
qed

subsection \<open>Percent-encoding and UTF-8\<close>

lemma lt16_cases: "d < 16 \<Longrightarrow> d \<in> {0, 1, 2, 3, 4, 5, 6, 7, 8, 9, 10, 11, 12, 13, 14, 15 :: nat}"
  by simp arith

lemma hex_val_digit: "d < 16 \<Longrightarrow> hex_val (digit_char d) = Some d"
  by (drule lt16_cases) (auto simp add: hex_val_def digit_char_def)

lemma unreserved_digit: "d < 16 \<Longrightarrow> uri_unreserved (digit_char d)"
  by (drule lt16_cases) (auto simp add: uri_unreserved_def alnum_def digit_char_def)

lemma percent_decode_plain: "c \<noteq> CHR ''%'' \<Longrightarrow> percent_decode (c # r) = c # percent_decode r"
  by simp

lemma percent_decode_byte: "percent_decode (pct_byte c @ r) = c # percent_decode r"
proof -
  let ?n = "of_char c :: nat"
  have lt: "?n div 16 < 16" by (simp add: less_mult_imp_div_less)
  have "char_of (16 * (?n div 16) + ?n mod 16) = char_of ?n" by simp
  then have "char_of (16 * (?n div 16) + ?n mod 16) = c" by simp
  then show ?thesis
    using hex_val_digit [OF lt] hex_val_digit [of "?n mod 16"]
    by (simp add: pct_byte_def)
qed

lemma unreserved_not_percent: "uri_unreserved c \<Longrightarrow> c \<noteq> CHR ''%''"
  by (auto simp add: uri_unreserved_def alnum_def)

lemma percent_decode_encodeURIComponent: "percent_decode (encodeURIComponent s) = s"
proof (induction s)
  case Nil
  then show ?case by (simp add: encodeURIComponent_def)
next
  case (Cons c s)
  have e: "encodeURIComponent (c # s) = (if uri_unreserved c then [c] else pct_byte c) @ encodeURIComponent s"
    by (simp add: encodeURIComponent_def)
  show ?case
  proof (cases "uri_unreserved c")
    case True
    then show ?thesis using Cons unreserved_not_percent [OF True] by (simp add: e)
  next
    case False
    then show ?thesis using Cons by (simp only: e if_False percent_decode_byte)
  qed
qed

lemma plain_encodeURIComponent: "c \<in> set (encodeURIComponent s) \<Longrightarrow> uri_unreserved c \<or> c = CHR ''%''"
  by (induction s)
     (auto simp add: encodeURIComponent_def pct_byte_def unreserved_digit less_mult_imp_div_less
       split: if_splits)

lemma plain_props:
  assumes "uri_unreserved c \<or> c = CHR ''%''"
  shows "\<not> fragment_encode_set c" and "c \<noteq> CHR ''?''" and "c \<noteq> CHR ''&''" and "c \<noteq> CHR ''=''"
    and "c \<noteq> CHR ''+''" and "c \<noteq> CHR ''#''" and "c \<noteq> CHR ''/''"
  using assms by (auto simp add: uri_unreserved_def alnum_def fragment_encode_set_def)

lemma tab_or_newline_encoded: "tab_or_newline c \<Longrightarrow> fragment_encode_set c"
  by (auto simp add: tab_or_newline_def fragment_encode_set_def)

lemma fragment_encode_id:
  "\<forall>c \<in> set s. \<not> fragment_encode_set c \<Longrightarrow>
   concat (map (\<lambda>c. if fragment_encode_set c then pct_byte c else [c])
             (filter (\<lambda>c. \<not> tab_or_newline c) s)) = s"
  by (induction s) (auto dest: tab_or_newline_encoded)

lemma utf8_decode_1: "(of_char b :: nat) < 0x80 \<Longrightarrow> utf8_decode (b # bs) = b # utf8_decode bs"
  by simp

lemma utf8_decode_2:
  "0xC2 \<le> (of_char b :: nat) \<Longrightarrow> (of_char b :: nat) \<le> 0xDF \<Longrightarrow> in_range 0x80 0xBF c1 \<Longrightarrow>
   utf8_decode (b # c1 # r) = b # c1 # utf8_decode r"
  by simp

lemma utf8_decode_3:
  "0xE0 \<le> (of_char b :: nat) \<Longrightarrow> (of_char b :: nat) \<le> 0xEF \<Longrightarrow>
   in_range (second_lo (of_char b)) (second_hi (of_char b)) c1 \<Longrightarrow> in_range 0x80 0xBF c2 \<Longrightarrow>
   utf8_decode (b # c1 # c2 # r) = b # c1 # c2 # utf8_decode r"
  by simp

lemma utf8_decode_4:
  "0xF0 \<le> (of_char b :: nat) \<Longrightarrow> (of_char b :: nat) \<le> 0xF4 \<Longrightarrow>
   in_range (second_lo (of_char b)) (second_hi (of_char b)) c1 \<Longrightarrow> in_range 0x80 0xBF c2 \<Longrightarrow>
   in_range 0x80 0xBF c3 \<Longrightarrow>
   utf8_decode (b # c1 # c2 # c3 # r) = b # c1 # c2 # c3 # utf8_decode r"
  by simp

lemma well_formed_cases:
  assumes "well_formed (b # bs)"
  obtains
    (one) "(of_char b :: nat) < 0x80" "well_formed bs"
  | (two) c1 r where "0xC2 \<le> (of_char b :: nat)" "(of_char b :: nat) \<le> 0xDF" "bs = c1 # r"
      "in_range 0x80 0xBF c1" "well_formed r"
  | (three) c1 c2 r where "0xE0 \<le> (of_char b :: nat)" "(of_char b :: nat) \<le> 0xEF" "bs = c1 # c2 # r"
      "in_range (second_lo (of_char b)) (second_hi (of_char b)) c1" "in_range 0x80 0xBF c2" "well_formed r"
  | (four) c1 c2 c3 r where "0xF0 \<le> (of_char b :: nat)" "(of_char b :: nat) \<le> 0xF4" "bs = c1 # c2 # c3 # r"
      "in_range (second_lo (of_char b)) (second_hi (of_char b)) c1" "in_range 0x80 0xBF c2"
      "in_range 0x80 0xBF c3" "well_formed r"
proof -
  let ?n = "of_char b :: nat"
  consider "?n < 0x80" | "0xC2 \<le> ?n \<and> ?n \<le> 0xDF" | "0xE0 \<le> ?n \<and> ?n \<le> 0xEF"
    | "0xF0 \<le> ?n \<and> ?n \<le> 0xF4"
    | "\<not> ?n < 0x80 \<and> \<not> (0xC2 \<le> ?n \<and> ?n \<le> 0xDF) \<and> \<not> (0xE0 \<le> ?n \<and> ?n \<le> 0xEF) \<and> \<not> (0xF0 \<le> ?n \<and> ?n \<le> 0xF4)"
    by blast
  then show thesis
  proof cases
    case 1
    with assms show ?thesis by (intro one) (simp_all add: Let_def)
  next
    case 2
    with assms obtain c1 r where "bs = c1 # r" "in_range 0x80 0xBF c1" "well_formed r"
      by (cases bs) (simp_all add: Let_def)
    with 2 show ?thesis by (intro two) (simp_all add: Let_def)
  next
    case 3
    with assms obtain c1 r1 where b1: "bs = c1 # r1" by (cases bs) (simp_all add: Let_def)
    with 3 assms obtain c2 r where b2: "r1 = c2 # r" by (cases r1) (simp_all add: Let_def)
    from 3 assms b1 b2 show ?thesis by (intro three [of c1 c2 r]) (simp_all add: Let_def)
  next
    case 4
    with assms obtain c1 r1 where b1: "bs = c1 # r1" by (cases bs) (simp_all add: Let_def)
    with 4 assms obtain c2 r2 where b2: "r1 = c2 # r2" by (cases r1) (simp_all add: Let_def)
    with 4 assms b1 obtain c3 r where b3: "r2 = c3 # r" by (cases r2) (simp_all add: Let_def)
    from 4 assms b1 b2 b3 show ?thesis by (intro four [of c1 c2 c3 r]) (simp_all add: Let_def)
  next
    case 5
    with assms show ?thesis by (simp add: Let_def)
  qed
qed

lemma utf8_decode_well_formed: "well_formed s \<Longrightarrow> utf8_decode s = s"
proof (induction "length s" arbitrary: s rule: less_induct)
  case less
  show ?case
  proof (cases s)
    case Nil
    then show ?thesis by simp
  next
    case (Cons b bs)
    from less.prems Cons have "well_formed (b # bs)" by simp
    then show ?thesis
    proof (cases rule: well_formed_cases)
      case one
      then have "utf8_decode bs = bs" using less.hyps [of bs] Cons by simp
      with one Cons show ?thesis by (simp only: utf8_decode_1)
    next
      case (two c1 r)
      then have "utf8_decode r = r" using less.hyps [of r] Cons by simp
      with two Cons show ?thesis by (simp only: utf8_decode_2)
    next
      case (three c1 c2 r)
      then have "utf8_decode r = r" using less.hyps [of r] Cons by simp
      with three Cons show ?thesis by (simp only: utf8_decode_3)
    next
      case (four c1 c2 c3 r)
      then have "utf8_decode r = r" using less.hyps [of r] Cons by simp
      with four Cons show ?thesis by (simp only: utf8_decode_4)
    qed
  qed
qed

lemma plain_base_query:
  "c \<in> set (''base='' @ encodeURIComponent b) \<Longrightarrow>
   \<not> fragment_encode_set c \<and> c \<noteq> CHR ''?'' \<and> c \<noteq> CHR ''&'' \<and> c \<noteq> CHR ''#''"
  using plain_props [OF plain_encodeURIComponent, of c b]
  by (auto simp add: fragment_encode_set_def)

lemma form_decode_encodeURIComponent:
  assumes "well_formed b"
  shows "form_decode (encodeURIComponent b) = b"
proof -
  have "map (\<lambda>c. if c = CHR ''+'' then CHR '' '' else c) (encodeURIComponent b) = encodeURIComponent b"
    using plain_props(5) [OF plain_encodeURIComponent, of _ b] by (intro map_idI) auto
  then show ?thesis
    by (simp add: form_decode_def percent_decode_encodeURIComponent utf8_decode_well_formed [OF assms])
qed

lemma form_decode_base: "form_decode ''base'' = ''base''"
  by (simp add: form_decode_def)

lemma URLSearchParams_base:
  assumes "well_formed b"
  shows "new_URLSearchParams (''base='' @ encodeURIComponent b) = [(''base'', b)]"
proof -
  let ?q = "''base='' @ encodeURIComponent b"
  have na: "CHR ''&'' \<notin> set ?q" using plain_base_query [of "CHR ''&''" b] by blast
  have sp: "split CHR ''&'' ?q = [?q]" by (rule split_none [OF na])
  have q: "?q = ''base'' @ CHR ''='' # encodeURIComponent b" by simp
  have ne: "CHR ''='' \<notin> set ''base''" by simp
  have pp: "parse_pair ?q = (''base'', b)"
    unfolding parse_pair_def q
    by (simp only: takeWhile_sep [OF ne] dropWhile_sep [OF ne])
       (simp add: form_decode_base form_decode_encodeURIComponent [OF assms])
  have "new_URLSearchParams ?q = map parse_pair (filter (\<lambda>q. q \<noteq> []) (split CHR ''&'' ?q))"
    by (simp add: new_URLSearchParams_def)
  also have "\<dots> = [parse_pair ?q]" by (simp only: sp) simp
  finally show ?thesis by (simp only: pp)
qed

lemma set_hash_safe:
  "\<forall>c \<in> set s. \<not> fragment_encode_set c \<Longrightarrow> set_hash u (CHR ''#'' # s) = u\<lparr>fragment := Some s\<rparr>"
  by (simp add: set_hash_def fragment_encode_id)

lemma location_hash_toString:
  "s \<noteq> [] \<Longrightarrow>
   location_hash (url_toString ((new_URL href)\<lparr>fragment := Some s\<rparr>)) = CHR ''#'' # s"
proof -
  assume s: "s \<noteq> []"
  let ?pre = "takeWhile (\<lambda>c. c \<noteq> CHR ''#'') href"
  have np: "CHR ''#'' \<notin> set ?pre" by (auto dest: set_takeWhileD)
  have ts: "url_toString ((new_URL href)\<lparr>fragment := Some s\<rparr>) = ?pre @ CHR ''#'' # s"
    by (simp add: url_toString_def new_URL_def)
  have "fragment (new_URL (?pre @ CHR ''#'' # s)) = Some s"
    unfolding new_URL_def by (simp only: dropWhile_sep [OF np]) simp
  with s show ?thesis unfolding ts location_hash_def by simp
qed

lemma location_hash_shareUrl:
  assumes "\<forall>c \<in> set a. \<not> fragment_encode_set c"
  shows "location_hash (shareUrl href a b) = ''#/acct/'' @ a @ ''?base='' @ encodeURIComponent b"
proof -
  let ?E = "encodeURIComponent b"
  let ?input = "''/acct/'' @ a @ ''?base='' @ ?E"
  have safe: "\<forall>c \<in> set ?input. \<not> fragment_encode_set c"
  proof
    fix c assume "c \<in> set ?input"
    then have "c \<in> set ''/acct/'' \<or> c \<in> set a \<or> c \<in> set ''?base='' \<or> c \<in> set ?E"
      by auto
    moreover have "c \<in> set ''/acct/'' \<Longrightarrow> \<not> fragment_encode_set c"
      by (auto simp add: fragment_encode_set_def)
    moreover have "c \<in> set ''?base='' \<Longrightarrow> \<not> fragment_encode_set c"
      by (auto simp add: fragment_encode_set_def)
    moreover have "c \<in> set ?E \<Longrightarrow> \<not> fragment_encode_set c"
      using plain_props(1) [OF plain_encodeURIComponent] by blast
    ultimately show "\<not> fragment_encode_set c" using assms by blast
  qed
  have v: "''#/acct/'' @ a @ ''?base='' @ ?E = CHR ''#'' # ?input" by simp
  have ne: "?input \<noteq> []" by simp
  have "shareUrl href a b = url_toString ((new_URL href)\<lparr>fragment := Some ?input\<rparr>)"
    unfolding shareUrl_def by (simp only: v set_hash_safe [OF safe])
  then have "location_hash (shareUrl href a b) = CHR ''#'' # ?input"
    by (simp only: location_hash_toString [OF ne])
  then show ?thesis by simp
qed

lemmas eval_strings = split.simps segments.simps drop_hash_def fragment_path_def fragment_query_def
  new_URLSearchParams_def parse_pair_def form_decode_def hex_val_def char_of_def bit_Suc_0_iff
  encodeURIComponent_def uri_unreserved_def alnum_def pct_byte_def digit_char_def
  location_hash_def shareUrl_def new_URL_def set_hash_def url_toString_def
  fragment_encode_set_def tab_or_newline_def

subsection \<open>Hash router\<close>

lemma fragment_path_query:
  assumes "CHR ''?'' \<notin> set f"
  shows "fragment_path (f @ CHR ''?'' # q) = fragment_path f"
proof (cases f)
  case Nil
  then show ?thesis by (simp add: fragment_path_def drop_hash_def)
next
  case (Cons c r)
  with assms have r: "CHR ''?'' \<notin> set r" and c: "c \<noteq> CHR ''?''" by auto
  show ?thesis
  proof (cases "c = CHR ''#''")
    case True
    with Cons show ?thesis
      by (simp add: fragment_path_def drop_hash_def takeWhile_sep [OF r] takeWhile_nosep [OF r])
  next
    case False
    have "takeWhile (\<lambda>x. x \<noteq> CHR ''?'') (f @ CHR ''?'' # q) = f" by (rule takeWhile_sep [OF assms])
    moreover have "takeWhile (\<lambda>x. x \<noteq> CHR ''?'') f = f" by (rule takeWhile_nosep [OF assms])
    ultimately show ?thesis using False Cons by (simp add: fragment_path_def drop_hash_def)
  qed
qed

lemma segments_nonempty: "p \<in> set (segments s) \<Longrightarrow> p \<noteq> []"
  using split_segments [of s, symmetric] by auto

lemma parseRoute_home_iff:
  "(map_sum id name (parseRoute f) = Inr ''home'') = (\<not> acct_fragment f)"
proof -
  have "\<forall>p \<in> set (segments (fragment_path f)). p \<noteq> []" using segments_nonempty by blast
  then show ?thesis
    by (subst parseRoute_eq) (auto simp add: acct_fragment_def split: list.splits)
qed

text \<open>
  Claim C1. For every fragment \<open>f\<close>, \<^verbatim>\<open>parseRoute\<close> does not fail, and it yields the home
  route unless \<open>f\<close> matches \<^verbatim>\<open>#/acct/<nonempty>\<close>, that is, unless the first segment of
  its path is the literal \<^verbatim>\<open>acct\<close> and a non-empty second segment follows; then it
  yields the account route with that segment as the address. A query string after the
  path changes neither the match nor the route's name. In particular a fragment
  \<^verbatim>\<open>#/acct/<a>\<close>, with \<open>a\<close> non-empty and free of \<^verbatim>\<open>/\<close> and \<^verbatim>\<open>?\<close>, yields the account
  route for \<open>a\<close>, with or without a query string after it.
\<close>

theorem parseRoute_by_segments:
  "parseRoute f =
     Inr (case segments (fragment_path f) of
            p0 # p1 # ps \<Rightarrow>
              if p0 = ''acct'' then Acct p1 (new_URLSearchParams (fragment_query f))
              else Home (new_URLSearchParams (fragment_query f))
          | _ \<Rightarrow> Home (new_URLSearchParams (fragment_query f)))
   \<and> (map_sum id name (parseRoute f) = Inr ''home'') = (\<not> acct_fragment f)
   \<and> (map_sum id name (parseRoute f) = Inr ''acct'') = acct_fragment f
   \<and> (CHR ''?'' \<notin> set f \<longrightarrow>
        acct_fragment (f @ CHR ''?'' # q) = acct_fragment f
        \<and> map_sum id name (parseRoute (f @ CHR ''?'' # q)) = map_sum id name (parseRoute f))
   \<and> (a \<noteq> [] \<and> CHR ''/'' \<notin> set a \<and> CHR ''?'' \<notin> set a \<longrightarrow>
        parseRoute (''#/acct/'' @ a) = Inr (Acct a [])
        \<and> parseRoute (''#/acct/'' @ a @ CHR ''?'' # q)
            = Inr (Acct a (new_URLSearchParams (takeWhile (\<lambda>c. c \<noteq> CHR ''?'') q))))"
proof -
  have e: "parseRoute f =
     Inr (case segments (fragment_path f) of
            p0 # p1 # ps \<Rightarrow>
              if p0 = ''acct'' then Acct p1 (new_URLSearchParams (fragment_query f))
              else Home (new_URLSearchParams (fragment_query f))
          | _ \<Rightarrow> Home (new_URLSearchParams (fragment_query f)))"
    by (rule parseRoute_eq)
  have h: "(map_sum id name (parseRoute f) = Inr ''home'') = (\<not> acct_fragment f)"
    by (rule parseRoute_home_iff)
  have n: "\<And>g. map_sum id name (parseRoute g) = Inr ''home'' \<or> map_sum id name (parseRoute g) = Inr ''acct''"
    by (auto simp add: parseRoute_eq split: list.splits)
  have c: "(map_sum id name (parseRoute f) = Inr ''acct'') = acct_fragment f"
    using h n [of f] by auto
  have q: "CHR ''?'' \<notin> set f \<longrightarrow>
        acct_fragment (f @ CHR ''?'' # q) = acct_fragment f
        \<and> map_sum id name (parseRoute (f @ CHR ''?'' # q)) = map_sum id name (parseRoute f)"
  proof
    assume "CHR ''?'' \<notin> set f"
    then have m: "acct_fragment (f @ CHR ''?'' # q) = acct_fragment f"
      by (simp add: acct_fragment_def fragment_path_query)
    then show "acct_fragment (f @ CHR ''?'' # q) = acct_fragment f
        \<and> map_sum id name (parseRoute (f @ CHR ''?'' # q)) = map_sum id name (parseRoute f)"
      using parseRoute_home_iff [of f] parseRoute_home_iff [of "f @ CHR ''?'' # q"]
        n [of f] n [of "f @ CHR ''?'' # q"] by auto
  qed
  from e h c q parseRoute_acct_plain [of a] parseRoute_acct_query [of a q] show ?thesis by blast
qed

theorem parseRoute_by_segments_witness:
  "parseRoute ''#/acct/0xABCD?base=https%3A%2F%2Fexample.test''
     = Inr (Acct ''0xABCD'' [(''base'', ''https://example.test'')])
   \<and> parseRoute ''#/acct/0xABCD'' = Inr (Acct ''0xABCD'' [])
   \<and> acct_fragment ''#/acct/0xABCD''
   \<and> map_sum id name (parseRoute ''#/settings/0xABCD?x=1'') = Inr ''home''
   \<and> \<not> acct_fragment ''#/settings/0xABCD?x=1''
   \<and> map_sum id name (parseRoute ''#/acct//'') = Inr ''home''
   \<and> \<not> acct_fragment ''#/acct//''"
proof -
  have a: "''0xABCD'' \<noteq> [] \<and> CHR ''/'' \<notin> set ''0xABCD'' \<and> CHR ''?'' \<notin> set ''0xABCD''" by simp
  have q: "new_URLSearchParams (takeWhile (\<lambda>c. c \<noteq> CHR ''?'') ''base=https%3A%2F%2Fexample.test'')
      = [(''base'', ''https://example.test'')]"
    by (simp add: split.simps new_URLSearchParams_def parse_pair_def form_decode_def hex_val_def
        char_of_def bit_Suc_0_iff)
  have s: "\<not> acct_fragment ''#/settings/0xABCD?x=1''"
    by (simp add: acct_fragment_def fragment_path_def drop_hash_def segments.simps)
  have d: "\<not> acct_fragment ''#/acct//''"
    by (simp add: acct_fragment_def fragment_path_def drop_hash_def segments.simps)
  from parseRoute_by_segments [where f = "''#/acct/0xABCD''" and a = "''0xABCD''"
      and q = "''base=https%3A%2F%2Fexample.test''"] a
  have 1: "parseRoute (''#/acct/'' @ ''0xABCD'' @ CHR ''?'' # ''base=https%3A%2F%2Fexample.test'')
      = Inr (Acct ''0xABCD''
          (new_URLSearchParams (takeWhile (\<lambda>c. c \<noteq> CHR ''?'') ''base=https%3A%2F%2Fexample.test'')))"
    and 2: "parseRoute (''#/acct/'' @ ''0xABCD'') = Inr (Acct ''0xABCD'' [])"
    and 3: "(map_sum id name (parseRoute ''#/acct/0xABCD'') = Inr ''acct'') = acct_fragment ''#/acct/0xABCD''"
    by blast+
  from parseRoute_by_segments [where f = "''#/settings/0xABCD?x=1''"]
  have 4: "(map_sum id name (parseRoute ''#/settings/0xABCD?x=1'') = Inr ''home'')
      = (\<not> acct_fragment ''#/settings/0xABCD?x=1'')" by blast
  from parseRoute_by_segments [where f = "''#/acct//''"]
  have 5: "(map_sum id name (parseRoute ''#/acct//'') = Inr ''home'') = (\<not> acct_fragment ''#/acct//'')"
    by blast
  from 2 3 have 6: "acct_fragment ''#/acct/0xABCD''" by simp
  from 1 q have 7: "parseRoute ''#/acct/0xABCD?base=https%3A%2F%2Fexample.test''
     = Inr (Acct ''0xABCD'' [(''base'', ''https://example.test'')])" by simp
  from 2 have 8: "parseRoute ''#/acct/0xABCD'' = Inr (Acct ''0xABCD'' [])" by simp
  from 7 8 6 4 s 5 d show ?thesis by blast
qed

subsection \<open>Share link\<close>

text \<open>
  Claim C4, as stated, fails: the address goes into the fragment as it is. The empty
  address gives a fragment that parses to the home route, an address with a \<^verbatim>\<open>/\<close>
  comes back cut at the \<^verbatim>\<open>/\<close>, and an address with a space comes back percent-encoded.
\<close>

theorem share_link_counterexample:
  "parseRoute (location_hash (shareUrl ''https://app.test/'' [] ''https://example.test''))
     = Inr (Home [(''base'', ''https://example.test'')])
   \<and> parseRoute (location_hash (shareUrl ''https://app.test/'' ''0xAB/CD'' ''https://example.test''))
     = Inr (Acct ''0xAB'' [(''base'', ''https://example.test'')])
   \<and> parseRoute (location_hash (shareUrl ''https://app.test/'' ''0xAB CD'' ''https://example.test''))
     = Inr (Acct ''0xAB%20CD'' [(''base'', ''https://example.test'')])"
  by (simp add: parseRoute_def eval_strings)

text \<open>
  Claim C4, amended. For an address that is not empty and holds no \<^verbatim>\<open>/\<close>, no \<^verbatim>\<open>?\<close> and
  no character that the \<^verbatim>\<open>hash\<close> setter percent-encodes (control characters, space,
  double quote, \<^verbatim>\<open><\<close>, \<^verbatim>\<open>>\<close>, backquote, anything beyond ASCII), and for every base URL
  (a string without a lone surrogate), \<^verbatim>\<open>parseRoute\<close> on the fragment of
  \<^verbatim>\<open>shareUrl(addr, base)\<close> yields the account route with that address, and its \<^verbatim>\<open>base\<close>
  parameter is that base URL, whatever the page's own URL is.
\<close>

theorem share_link_round_trip:
  assumes "a \<noteq> []"
      and "\<forall>c \<in> set a. c \<noteq> CHR ''/'' \<and> c \<noteq> CHR ''?'' \<and> \<not> fragment_encode_set c"
      and "well_formed b"
  shows "parseRoute (location_hash (shareUrl href a b)) = Inr (Acct a [(''base'', b)])
       \<and> qs_get [(''base'', b)] ''base'' = Some b"
proof -
  let ?q = "''base='' @ encodeURIComponent b"
  from assms(2) have s: "CHR ''/'' \<notin> set a" and q: "CHR ''?'' \<notin> set a"
    and e: "\<forall>c \<in> set a. \<not> fragment_encode_set c" by auto
  have nq: "CHR ''?'' \<notin> set ?q" using plain_base_query [of "CHR ''?''" b] by blast
  have "location_hash (shareUrl href a b) = ''#/acct/'' @ a @ CHR ''?'' # ?q"
    using location_hash_shareUrl [OF e, of href b] by simp
  then have "parseRoute (location_hash (shareUrl href a b))
      = Inr (Acct a (new_URLSearchParams (takeWhile (\<lambda>c. c \<noteq> CHR ''?'') ?q)))"
    by (simp only: parseRoute_acct_query [OF assms(1) s q])
  then show ?thesis
    by (simp only: takeWhile_nosep [OF nq] URLSearchParams_base [OF assms(3)]) (simp add: qs_get_def)
qed

theorem share_link_round_trip_witness:
  "parseRoute (location_hash (shareUrl ''https://app.test/#/acct/0x0'' ''0xABCD'' ''https://example.test/a b''))
     = Inr (Acct ''0xABCD'' [(''base'', ''https://example.test/a b'')])
   \<and> qs_get [(''base'', ''https://example.test/a b'')] ''base'' = Some ''https://example.test/a b''"
proof -
  have h1: "''0xABCD'' \<noteq> []" by simp
  have h2: "\<forall>c \<in> set ''0xABCD''. c \<noteq> CHR ''/'' \<and> c \<noteq> CHR ''?'' \<and> \<not> fragment_encode_set c"
    by (simp add: fragment_encode_set_def)
  have h3: "well_formed ''https://example.test/a b''" by simp
  show ?thesis by (rule share_link_round_trip [OF h1 h2 h3])
qed

end
